theory Spec2Isabelle
  imports Main
begin

section \<open>Tables, series and the table-library operations the scripts call\<close>

text \<open>
  The scripts are straight-line batch jobs over pandas data frames. A series is the
  list of its cells over the default row index \<open>0, 1, ..., n - 1\<close> (what reading a CSV
  or a spreadsheet sheet gives); a missing cell (NaN) is \<open>None\<close>. A data frame is the
  ordered list of its named columns together with the length of its row index.
  Numeric cells are exact integers. The operations below are the pandas calls the
  scripts make, with the exceptions they raise as values of \<open>error\<close>;
  \<open>DataFrame.append\<close> is the one of the pandas releases that have it.
\<close>

datatype error = KeyError | ValueError | FileNotFoundError | ReadError

type_synonym 'a series = "'a option list"

record 'a dataframe =
  columns :: "(string \<times> 'a series) list"
  nrows :: nat

definition col_names :: "'a dataframe \<Rightarrow> string list" where
  "col_names df = map fst (columns df)"

text \<open>The invariant of a frame that was read from a file: unique column names, and
  every column as long as the row index.\<close>

definition wf :: "'a dataframe \<Rightarrow> bool" where
  "wf df = (distinct (col_names df) \<and> list_all (\<lambda>c. length (snd c) = nrows df) (columns df))"

text \<open>\<open>col in df\<close>\<close>

definition has_col :: "'a dataframe \<Rightarrow> string \<Rightarrow> bool" where
  "has_col df col = (col \<in> set (col_names df))"

text \<open>\<open>df[col]\<close>: the column of that name, KeyError when there is none.\<close>

definition getitem :: "'a dataframe \<Rightarrow> string \<Rightarrow> error + 'a series" where
  "getitem df col = (case map_of (columns df) col of None \<Rightarrow> Inl KeyError | Some xs \<Rightarrow> Inr xs)"

text \<open>A Python dict keeps insertion order; storing under a key that is present
  replaces the value in place, storing under a new key appends. Column assignment
  on a frame places the column the same way.\<close>

fun dict_set :: "'k \<Rightarrow> 'v \<Rightarrow> ('k \<times> 'v) list \<Rightarrow> ('k \<times> 'v) list" where
  "dict_set k v [] = [(k, v)]"
| "dict_set k v (kv # kvs) = (if fst kv = k then (k, v) # kvs else kv # dict_set k v kvs)"

text \<open>\<open>series.reindex(range(n))\<close> of a series over \<open>0 .. length - 1\<close>: the first \<open>n\<close>
  cells, padded with missing cells when the series is shorter.\<close>

definition reindex :: "nat \<Rightarrow> 'a series \<Rightarrow> 'a series" where
  "reindex n xs = take n xs @ replicate (n - length xs) None"

text \<open>Storing a series in a frame, by \<open>df[col] = val\<close> or by \<open>df.insert\<close>, goes through
  the frame's \<open>_sanitize_column\<close>: \<open>_ensure_valid_index\<close> first gives a frame whose row
  index is empty the index of a non-empty value (the columns it has are filled with
  missing cells), then the value is reindexed to the frame's index. No length check is
  made on a series.\<close>

definition ensure_valid_index :: "'a dataframe \<Rightarrow> 'a series \<Rightarrow> 'a dataframe" where
  "ensure_valid_index df val =
     (if nrows df = 0 \<and> 0 < length val
      then \<lparr>columns = map (\<lambda>c. (fst c, reindex (length val) (snd c))) (columns df),
            nrows = length val\<rparr>
      else df)"

text \<open>\<open>df[col] = val\<close>\<close>

definition setitem :: "'a dataframe \<Rightarrow> string \<Rightarrow> 'a series \<Rightarrow> 'a dataframe" where
  "setitem df col val =
     (let df' = ensure_valid_index df val
      in df'\<lparr>columns := dict_set col (reindex (nrows df') val) (columns df')\<rparr>)"

text \<open>\<open>df.insert(0, col, val)\<close>: ValueError when the name is already a column.\<close>

definition insert_front :: "'a dataframe \<Rightarrow> string \<Rightarrow> 'a series \<Rightarrow> error + 'a dataframe" where
  "insert_front df col val =
     (if has_col df col then Inl ValueError
      else (let df' = ensure_valid_index df val
            in Inr (df'\<lparr>columns := (col, reindex (nrows df') val) # columns df'\<rparr>)))"

text \<open>\<open>df[labels]\<close> with a list of labels: those columns in that order, KeyError when
  one is missing.\<close>

fun select :: "'a dataframe \<Rightarrow> string list \<Rightarrow> error + 'a dataframe" where
  "select df [] = Inr \<lparr>columns = [], nrows = nrows df\<rparr>"
| "select df (c # cs) =
     (case getitem df c of
        Inl e \<Rightarrow> Inl e
      | Inr xs \<Rightarrow>
          (case select df cs of
             Inl e \<Rightarrow> Inl e
           | Inr t \<Rightarrow> Inr (t\<lparr>columns := (c, xs) # columns t\<rparr>)))"

text \<open>\<open>df.rename(columns=mapping)\<close>: a name that is a key becomes its value, every
  other name stays.\<close>

definition rename_columns :: "(string \<times> string) list \<Rightarrow> 'a dataframe \<Rightarrow> 'a dataframe" where
  "rename_columns mapping df =
     df\<lparr>columns :=
          map (\<lambda>c. (case map_of mapping (fst c) of None \<Rightarrow> fst c | Some new \<Rightarrow> new, snd c))
            (columns df)\<rparr>"

text \<open>\<open>pd.concat(frames)\<close>: ValueError on an empty list; otherwise the rows of all
  frames, over the union of their columns in order of first appearance, a frame
  lacking a column contributing missing cells.\<close>

fun concat_names :: "'a dataframe list \<Rightarrow> string list \<Rightarrow> string list" where
  "concat_names [] acc = acc"
| "concat_names (df # dfs) acc =
     concat_names dfs (acc @ filter (\<lambda>c. c \<notin> set acc) (col_names df))"

definition column_or_missing :: "'a dataframe \<Rightarrow> string \<Rightarrow> 'a series" where
  "column_or_missing df c =
     (case map_of (columns df) c of None \<Rightarrow> replicate (nrows df) None | Some xs \<Rightarrow> xs)"

definition pd_concat :: "'a dataframe list \<Rightarrow> error + 'a dataframe" where
  "pd_concat dfs =
     (if dfs = [] then Inl ValueError
      else Inr \<lparr>columns = map (\<lambda>c. (c, concat (map (\<lambda>df. column_or_missing df c) dfs)))
                             (concat_names dfs []),
                nrows = sum_list (map nrows dfs)\<rparr>)"

text \<open>\<open>s.endswith(suffix)\<close>\<close>

definition endswith :: "string \<Rightarrow> string \<Rightarrow> bool" where
  "endswith s suf = (length suf \<le> length s \<and> drop (length s - length suf) s = suf)"

text \<open>\<open>os.path.splitext(p)[0]\<close> for a directory entry (no separator in it): cut at the
  last dot, unless only dots come before it.\<close>

definition splitext_root :: "string \<Rightarrow> string" where
  "splitext_root p =
     (let rest = dropWhile (\<lambda>ch. ch \<noteq> CHR ''.'') (rev p) in
      if rest = [] then p
      else (let root = rev (tl rest) in
            if list_ex (\<lambda>ch. ch \<noteq> CHR ''.'') root then root else p))"

text \<open>\<open>os.path.join(directory, name)\<close> for a relative name.\<close>

definition path_join :: "string \<Rightarrow> string \<Rightarrow> string" where
  "path_join d name = (if d = [] \<or> endswith d ''/'' then d @ name else d @ ''/'' @ name)"

text \<open>The lines the scripts print.\<close>

datatype message =
    ErrorReading string
  | SkippingSheet string string
  | SumWritten string string
  | ProcessingComplete
  | ColumnsInserted string
  | AllFilesProcessed

text \<open>What a run leaves behind: the files written, in the order of the writes, the
  lines printed, and the uncaught exception that ended it, if any.\<close>

record 'f run =
  written :: "(string \<times> 'f) list"
  printed :: "message list"
  raised :: "error option"

definition before :: "(string \<times> 'f) list \<Rightarrow> message list \<Rightarrow> 'f run \<Rightarrow> 'f run" where
  "before ws ms r = r\<lparr>written := ws @ written r, printed := ms @ printed r\<rparr>"

definition abort :: "error \<Rightarrow> 'f run" where
  "abort e = \<lparr>written = [], printed = [], raised = Some e\<rparr>"

definition finished :: "'f run" where
  "finished = \<lparr>written = [], printed = [], raised = None\<rparr>"

definition then_print :: "'f run \<Rightarrow> message \<Rightarrow> 'f run" where
  "then_print r m = (if raised r = None then r\<lparr>printed := printed r @ [m]\<rparr> else r)"

section \<open>data\_processing\_script.py: the column-sum aggregator\<close>

definition excel_files_directory :: string where
  "excel_files_directory = ''Load_data_XL''"

definition output_directory :: string where
  "output_directory = ''Load_data''"

definition columns_to_sum :: "string list" where
  "columns_to_sum = [''FAR_WEST'', ''NORTH'', ''WEST'']"

text \<open>\<open>Series.sum()\<close>: missing cells are skipped, the empty sum is 0.\<close>

definition series_sum :: "int series \<Rightarrow> int" where
  "series_sum xs = sum_list (map (\<lambda>c. case c of None \<Rightarrow> 0 | Some v \<Rightarrow> v) xs)"

datatype scalar = SInt int | SStr string

type_synonym sum_row = "(string \<times> scalar) list"

text \<open>\<open>{col: sheet_df[col].sum() for col in columns_to_sum}\<close>\<close>

fun sum_data :: "string list \<Rightarrow> int dataframe \<Rightarrow> sum_row \<Rightarrow> error + sum_row" where
  "sum_data [] sheet_df d = Inr d"
| "sum_data (col # cols) sheet_df d =
     (case getitem sheet_df col of
        Inl e \<Rightarrow> Inl e
      | Inr xs \<Rightarrow> sum_data cols sheet_df (dict_set col (SInt (series_sum xs)) d))"

text \<open>The loop over the sheets of one workbook. \<open>result_df\<close> is the frame of the rows
  appended so far, kept as the list of its rows.\<close>

fun sheet_loop ::
  "string list \<Rightarrow> string \<Rightarrow> (string \<times> int dataframe) list \<Rightarrow> sum_row list
     \<Rightarrow> message list \<times> (error + sum_row list)" where
  "sheet_loop cols excel_file [] result_df = ([], Inr result_df)"
| "sheet_loop cols excel_file (sheet # sheets) result_df =
     (if \<not> list_all (has_col (snd sheet)) cols
      then (case sheet_loop cols excel_file sheets result_df of
              (ms, r) \<Rightarrow> (SkippingSheet (fst sheet) excel_file # ms, r))
      else (case sum_data cols (snd sheet) [] of
              Inl e \<Rightarrow> ([], Inl e)
            | Inr d \<Rightarrow>
                sheet_loop cols excel_file sheets
                  (result_df @ [dict_set ''Sheet'' (SStr (fst sheet)) d])))"

definition output_csv_path :: "string \<Rightarrow> string" where
  "output_csv_path excel_file = path_join output_directory (splitext_root excel_file @ ''_sum.csv'')"

definition is_excel :: "string \<Rightarrow> bool" where
  "is_excel f = (endswith f ''.xlsx'' \<or> endswith f ''.xls'')"

text \<open>A directory is the list of its entries in listing order; a workbook that cannot
  be read is \<open>None\<close>, a readable one is the list of its sheets.\<close>

type_synonym workbook = "(string \<times> int dataframe) list"

fun aggregator_loop :: "string list \<Rightarrow> (string \<times> workbook option) list \<Rightarrow> sum_row list run" where
  "aggregator_loop cols [] = finished"
| "aggregator_loop cols (file # files) =
     (case snd file of
        None \<Rightarrow> before [] [ErrorReading (fst file)] (aggregator_loop cols files)
      | Some sheets \<Rightarrow>
          (case sheet_loop cols (fst file) sheets [] of
             (ms, Inl e) \<Rightarrow> before [] ms (abort e)
           | (ms, Inr result_df) \<Rightarrow>
               before [(output_csv_path (fst file), result_df)]
                 (ms @ [SumWritten (fst file) (output_csv_path (fst file))])
                 (aggregator_loop cols files)))"

definition aggregator :: "string list \<Rightarrow> (string \<times> workbook option) list \<Rightarrow> sum_row list run" where
  "aggregator cols dir =
     then_print (aggregator_loop cols (filter (\<lambda>file. is_excel (fst file)) dir)) ProcessingComplete"

section \<open>data\_processing\_script.py: the row-wise sum and the concatenation\<close>

definition folder_path_excel :: string where
  "folder_path_excel = ''path_to_folder_containing_excel_files''"

definition columns_to_sum_rows :: "string list" where
  "columns_to_sum_rows = [''Column1'', ''Column2'']"

definition cell_value :: "int series \<Rightarrow> nat \<Rightarrow> int" where
  "cell_value xs i = (if i < length xs then (case xs ! i of None \<Rightarrow> 0 | Some v \<Rightarrow> v) else 0)"

text \<open>\<open>frame.sum(axis=1)\<close>: for each row the sum of its cells, missing cells skipped.\<close>

definition sum_axis1 :: "int dataframe \<Rightarrow> int series" where
  "sum_axis1 df = map (\<lambda>i. Some (sum_list (map (\<lambda>c. cell_value (snd c) i) (columns df)))) [0..<nrows df]"

text \<open>\<open>df['Total'] = df[columns_to_sum].sum(axis=1)\<close>\<close>

definition add_total :: "string list \<Rightarrow> int dataframe \<Rightarrow> error + int dataframe" where
  "add_total cols df =
     (case select df cols of
        Inl e \<Rightarrow> Inl e
      | Inr part \<Rightarrow> Inr (setitem df ''Total'' (sum_axis1 part)))"

fun total_sheets :: "string list \<Rightarrow> workbook \<Rightarrow> error + int dataframe list" where
  "total_sheets cols [] = Inr []"
| "total_sheets cols (sheet # sheets) =
     (case add_total cols (snd sheet) of
        Inl e \<Rightarrow> Inl e
      | Inr df \<Rightarrow>
          (case total_sheets cols sheets of
             Inl e \<Rightarrow> Inl e
           | Inr dfs \<Rightarrow> Inr (df # dfs)))"

text \<open>The loop that fills \<open>results\<close>; only \<open>.xlsx\<close> entries are opened, and an entry
  that cannot be opened raises.\<close>

fun results_loop :: "string list \<Rightarrow> (string \<times> workbook option) list \<Rightarrow> error + int dataframe list" where
  "results_loop cols [] = Inr []"
| "results_loop cols (file # files) =
     (if endswith (fst file) ''.xlsx''
      then (case snd file of
              None \<Rightarrow> Inl ReadError
            | Some sheets \<Rightarrow>
                (case total_sheets cols sheets of
                   Inl e \<Rightarrow> Inl e
                 | Inr dfs \<Rightarrow>
                     (case results_loop cols files of
                        Inl e \<Rightarrow> Inl e
                      | Inr rest \<Rightarrow> Inr (dfs @ rest))))
      else results_loop cols files)"

definition concat_job :: "string list \<Rightarrow> (string \<times> workbook option) list \<Rightarrow> int dataframe run" where
  "concat_job cols dir =
     (case results_loop cols dir of
        Inl e \<Rightarrow> abort e
      | Inr results \<Rightarrow>
          (case pd_concat results of
             Inl e \<Rightarrow> abort e
           | Inr final_result \<Rightarrow> before [(''output.csv'', final_result)] [] finished))"

section \<open>test.py: the column-range copier\<close>

definition start_col :: nat where
  "start_col = 1"

definition end_col :: nat where
  "end_col = 33"

text \<open>\<open>source_df.columns[start_col:end_col+1]\<close>\<close>

definition columns_to_copy :: "nat \<Rightarrow> nat \<Rightarrow> 'a dataframe \<Rightarrow> string list" where
  "columns_to_copy start fin source_df = drop start (take (fin + 1) (col_names source_df))"

fun insert_loop :: "'a dataframe \<Rightarrow> string list \<Rightarrow> 'a dataframe \<Rightarrow> error + 'a dataframe" where
  "insert_loop source_df [] target_df = Inr target_df"
| "insert_loop source_df (col # cols) target_df =
     (case getitem source_df col of
        Inl e \<Rightarrow> Inl e
      | Inr val \<Rightarrow>
          (case insert_front target_df col val of
             Inl e \<Rightarrow> Inl e
           | Inr target_df' \<Rightarrow> insert_loop source_df cols target_df'))"

definition copy_columns :: "nat \<Rightarrow> nat \<Rightarrow> 'a dataframe \<Rightarrow> 'a dataframe \<Rightarrow> error + 'a dataframe" where
  "copy_columns start fin source_df target_df =
     insert_loop source_df (columns_to_copy start fin source_df) target_df"

definition is_csv :: "string \<Rightarrow> bool" where
  "is_csv f = endswith f ''.csv''"

fun copy_loop ::
  "string \<Rightarrow> nat \<Rightarrow> nat \<Rightarrow> 'a dataframe \<Rightarrow> (string \<times> 'a dataframe) list \<Rightarrow> 'a dataframe run" where
  "copy_loop folder start fin source_df [] = finished"
| "copy_loop folder start fin source_df (file # files) =
     (if is_csv (fst file)
      then (case copy_columns start fin source_df (snd file) of
              Inl e \<Rightarrow> abort e
            | Inr target_df \<Rightarrow>
                before [(path_join folder (fst file), target_df)] [ColumnsInserted (fst file)]
                  (copy_loop folder start fin source_df files))
      else copy_loop folder start fin source_df files)"

definition copy_job ::
  "string \<Rightarrow> nat \<Rightarrow> nat \<Rightarrow> 'a dataframe \<Rightarrow> (string \<times> 'a dataframe) list \<Rightarrow> 'a dataframe run" where
  "copy_job folder start fin source_df dir =
     then_print (copy_loop folder start fin source_df dir) AllFilesProcessed"

section \<open>test.py: the column reconciliation\<close>

text \<open>\<open>set(reference_df.columns) - set(current_df.columns)\<close> is a set, and the loop
  over it runs in an order the language does not fix: the loop takes the order as a
  list, and the job below uses the reference's order.\<close>

definition missing_columns :: "'a dataframe \<Rightarrow> 'a dataframe \<Rightarrow> string list" where
  "missing_columns reference_df current_df =
     filter (\<lambda>c. \<not> has_col current_df c) (remdups (col_names reference_df))"

fun add_missing :: "'a dataframe \<Rightarrow> string list \<Rightarrow> 'a dataframe \<Rightarrow> error + 'a dataframe" where
  "add_missing reference_df [] current_df = Inr current_df"
| "add_missing reference_df (column # rest) current_df =
     (case getitem reference_df column of
        Inl e \<Rightarrow> Inl e
      | Inr val \<Rightarrow> add_missing reference_df rest (setitem current_df column val))"

definition reconcile_with :: "string list \<Rightarrow> 'a dataframe \<Rightarrow> 'a dataframe \<Rightarrow> error + 'a dataframe" where
  "reconcile_with order reference_df current_df =
     (case add_missing reference_df order current_df of
        Inl e \<Rightarrow> Inl e
      | Inr df \<Rightarrow> select df (col_names reference_df))"

definition reconcile :: "'a dataframe \<Rightarrow> 'a dataframe \<Rightarrow> error + 'a dataframe" where
  "reconcile reference_df current_df =
     reconcile_with (missing_columns reference_df current_df) reference_df current_df"

fun reconcile_loop ::
  "string \<Rightarrow> 'a dataframe \<Rightarrow> (string \<times> 'a dataframe) list \<Rightarrow> 'a dataframe run" where
  "reconcile_loop folder reference_df [] = finished"
| "reconcile_loop folder reference_df (file # files) =
     (if is_csv (fst file)
      then (case reconcile reference_df (snd file) of
              Inl e \<Rightarrow> abort e
            | Inr current_df \<Rightarrow>
                before [(path_join folder (fst file), current_df)] []
                  (reconcile_loop folder reference_df files))
      else reconcile_loop folder reference_df files)"

definition reconcile_job ::
  "string \<Rightarrow> 'a dataframe \<Rightarrow> (string \<times> 'a dataframe) list \<Rightarrow> 'a dataframe run" where
  "reconcile_job folder reference_df dir =
     then_print (reconcile_loop folder reference_df dir) AllFilesProcessed"

section \<open>test.py: the column renamer\<close>

definition columns_to_rename :: "(string \<times> string) list" where
  "columns_to_rename =
     [(''TRE_WEST_wind_1'', ''TRE_WEST_landbasedwind_class1_moderate_1''),
      (''TRE_WEST_wind_2'', ''TRE_WEST_landbasedwind_class1_moderate_2''),
      (''TRE_WEST_wind_3'', ''TRE_WEST_landbasedwind_class1_moderate_3''),
      (''TRE_wind_4'', ''TRE_landbasedwind_class1_moderate_4''),
      (''TRE_wind_5'', ''TRE_landbasedwind_class1_moderate_5''),
      (''TRE_wind_6'', ''TRE_landbasedwind_class1_moderate_6''),
      (''TRE_WEST_solar_pv_7'', ''TRE_WEST_utilitypv_class1_moderate_1''),
      (''TRE_WEST_solar_pv_8'', ''TRE_WEST_utilitypv_class1_moderate_2''),
      (''TRE_WEST_solar_pv_9'', ''TRE_WEST_utilitypv_class1_moderate_3''),
      (''TRE_solar_pv_10'', ''TRE_utilitypv_class1_moderate_4''),
      (''TRE_solar_pv_11'', ''TRE_utilitypv_class1_moderate_5'')]"

fun rename_loop ::
  "string \<Rightarrow> (string \<times> string) list \<Rightarrow> (string \<times> 'a dataframe) list \<Rightarrow> 'a dataframe run" where
  "rename_loop folder mapping [] = finished"
| "rename_loop folder mapping (file # files) =
     (if is_csv (fst file)
      then before [(path_join folder (fst file), rename_columns mapping (snd file))] []
             (rename_loop folder mapping files)
      else rename_loop folder mapping files)"

section \<open>test.py: the column replacer\<close>

definition columns_to_replace :: "string list" where
  "columns_to_replace =
     [''TRE_WEST_landbasedwind_class1_moderate_1'',
      ''TRE_WEST_landbasedwind_class1_moderate_2'',
      ''TRE_WEST_landbasedwind_class1_moderate_3'',
      ''TRE_landbasedwind_class1_moderate_4'',
      ''TRE_landbasedwind_class1_moderate_5'',
      ''TRE_landbasedwind_class1_moderate_6'',
      ''TRE_WEST_utilitypv_class1_moderate_1'',
      ''TRE_WEST_utilitypv_class1_moderate_2'',
      ''TRE_WEST_utilitypv_class1_moderate_3'',
      ''TRE_utilitypv_class1_moderate_4'',
      ''TRE_utilitypv_class1_moderate_5'']"

text \<open>\<open>for column in columns_to_replace: df1[column] = df2[column]\<close>\<close>

fun replace_columns :: "string list \<Rightarrow> 'a dataframe \<Rightarrow> 'a dataframe \<Rightarrow> error + 'a dataframe" where
  "replace_columns [] df1 df2 = Inr df1"
| "replace_columns (column # rest) df1 df2 =
     (case getitem df2 column of
        Inl e \<Rightarrow> Inl e
      | Inr val \<Rightarrow> replace_columns rest (setitem df1 column val) df2)"

text \<open>The loop over the first folder; the second folder is looked up by file name, and
  a name it lacks raises when the file is read.\<close>

fun replace_loop ::
  "string \<Rightarrow> string list \<Rightarrow> (string \<times> 'a dataframe) list \<Rightarrow> (string \<times> 'a dataframe) list
     \<Rightarrow> 'a dataframe run" where
  "replace_loop folder1 cols folder2 [] = finished"
| "replace_loop folder1 cols folder2 (file # files) =
     (if is_csv (fst file)
      then (case map_of folder2 (fst file) of
              None \<Rightarrow> abort FileNotFoundError
            | Some df2 \<Rightarrow>
                (case replace_columns cols (snd file) df2 of
                   Inl e \<Rightarrow> abort e
                 | Inr df1 \<Rightarrow>
                     before [(path_join folder1 (fst file), df1)] []
                       (replace_loop folder1 cols folder2 files)))
      else replace_loop folder1 cols folder2 files)"

definition replace_job ::
  "string \<Rightarrow> string list \<Rightarrow> (string \<times> 'a dataframe) list \<Rightarrow> (string \<times> 'a dataframe) list
     \<Rightarrow> 'a dataframe run" where
  "replace_job folder1 cols folder2 dir1 =
     then_print (replace_loop folder1 cols folder2 dir1) AllFilesProcessed"

section \<open>Closed forms and scenarios\<close>

text \<open>What the aggregator is to produce for one sheet, one workbook and one directory
  entry, written without the loops: the row of a sheet, the rows of the sheets that have
  every target column, the notices for the others, and the file and the lines of an
  entry.\<close>

definition sheet_row :: "string list \<Rightarrow> string \<times> int dataframe \<Rightarrow> sum_row" where
  "sheet_row cols sheet =
     dict_set ''Sheet'' (SStr (fst sheet))
       (fold (\<lambda>col. dict_set col (SInt (series_sum (column_or_missing (snd sheet) col)))) cols [])"

definition file_rows :: "string list \<Rightarrow> workbook \<Rightarrow> sum_row list" where
  "file_rows cols sheets =
     map (sheet_row cols) (filter (\<lambda>sheet. list_all (has_col (snd sheet)) cols) sheets)"

definition file_notices :: "string list \<Rightarrow> string \<Rightarrow> workbook \<Rightarrow> message list" where
  "file_notices cols excel_file sheets =
     map (\<lambda>sheet. SkippingSheet (fst sheet) excel_file)
       (filter (\<lambda>sheet. \<not> list_all (has_col (snd sheet)) cols) sheets)"

definition file_written ::
  "string list \<Rightarrow> string \<times> workbook option \<Rightarrow> (string \<times> sum_row list) list" where
  "file_written cols file =
     (case snd file of
        None \<Rightarrow> []
      | Some sheets \<Rightarrow> [(output_csv_path (fst file), file_rows cols sheets)])"

definition file_printed :: "string list \<Rightarrow> string \<times> workbook option \<Rightarrow> message list" where
  "file_printed cols file =
     (case snd file of
        None \<Rightarrow> [ErrorReading (fst file)]
      | Some sheets \<Rightarrow>
          file_notices cols (fst file) sheets
          @ [SumWritten (fst file) (output_csv_path (fst file))])"

text \<open>The sheet of the specification's scenario, and a sheet with a header only.\<close>

definition sheet_S1 :: "int dataframe" where
  "sheet_S1 =
     \<lparr>columns = [(''FAR_WEST'', [Some 1, Some 2]), (''NORTH'', [Some 3, Some 4]),
                 (''WEST'', [Some 5, Some 6])],
      nrows = 2\<rparr>"


text \<open>Two frames for the renamer: one with an old name, one with none.\<close>

definition wind_table :: "int dataframe" where
  "wind_table =
     \<lparr>columns = [(''Time_Index'', [Some 1, Some 2]), (''TRE_wind_4'', [Some 7, Some 8])],
      nrows = 2\<rparr>"

definition plain_table :: "int dataframe" where
  "plain_table =
     \<lparr>columns = [(''Time_Index'', [Some 1, Some 2]), (''CT'', [Some 7, Some 8])],
      nrows = 2\<rparr>"

text \<open>Two sheets for the row-wise sum: one that has a Total column already, one with a
  missing cell.\<close>

definition totals_table :: "int dataframe" where
  "totals_table =
     \<lparr>columns = [(''Column1'', [Some 1]), (''Column2'', [Some 2]), (''Total'', [Some 100])],
      nrows = 1\<rparr>"

definition gaps_table :: "int dataframe" where
  "gaps_table =
     \<lparr>columns = [(''Hour'', [Some 1, Some 2]), (''Column1'', [Some 10, None]),
                 (''Column2'', [Some 5, Some 7])],
      nrows = 2\<rparr>"

text \<open>An entry of the first folder on which the replacer raises: a CSV whose name the
  second folder lacks, or whose namesake there lacks a listed column.\<close>

definition unmatched :: "string list \<Rightarrow> (string \<times> 'a dataframe) list \<Rightarrow> string \<times> 'a dataframe \<Rightarrow> bool" where
  "unmatched cols folder2 file =
     (is_csv (fst file) \<and>
      (case map_of folder2 (fst file) of
         None \<Rightarrow> True
       | Some df2 \<Rightarrow> \<not> list_all (has_col df2) cols))"

text \<open>Frames for the replacer: a second-folder file with every listed column and one
  row, first-folder files without the listed columns, with two rows and with none, and
  the two files of the specification's scenario.\<close>

definition partner_table :: "int dataframe" where
  "partner_table = \<lparr>columns = map (\<lambda>c. (c, [Some 99])) columns_to_replace, nrows = 1\<rparr>"

definition other_table :: "int dataframe" where
  "other_table = \<lparr>columns = [(''Time_Index'', [Some 1, Some 2])], nrows = 2\<rparr>"


definition folder_A_x :: "int dataframe" where
  "folder_A_x = \<lparr>columns = [(''Time_Index'', [Some 1, Some 2]), (''TRE'', [Some 10, Some 20])], nrows = 2\<rparr>"

definition folder_B_x :: "int dataframe" where
  "folder_B_x = \<lparr>columns = [(''TRE'', [Some 99, Some 98])], nrows = 2\<rparr>"

definition longer_table :: "int dataframe" where
  "longer_table = \<lparr>columns = [(''Time_Index'', [Some 1, Some 2, Some 3])], nrows = 3\<rparr>"

text \<open>Frames for the reconciliation: a reference and a target that lacks one of its
  columns, has one of its own, and orders the shared ones differently.\<close>

definition reference_table :: "int dataframe" where
  "reference_table =
     \<lparr>columns = [(''Time_Index'', [Some 1, Some 2]), (''wind'', [Some 30, Some 40]),
                 (''solar'', [Some 5, Some 6])],
      nrows = 2\<rparr>"

definition target_table :: "int dataframe" where
  "target_table =
     \<lparr>columns = [(''solar'', [Some 7, Some 8]), (''extra'', [Some 0, Some 0]),
                 (''Time_Index'', [Some 1, Some 2])],
      nrows = 2\<rparr>"

text \<open>What the reconciliation is to leave of a target: the reference's columns in the
  reference's order, each holding the target's values when the target has the column
  and the reference's otherwise, over the target's row index (the reference's when the
  target has no rows and lacks a column).\<close>

definition reconciled :: "'a dataframe \<Rightarrow> 'a dataframe \<Rightarrow> 'a dataframe" where
  "reconciled reference_df current_df =
     (let n = (if nrows current_df = 0
                  \<and> \<not> list_all (has_col current_df) (col_names reference_df)
               then nrows reference_df else nrows current_df)
      in \<lparr>columns =
            map (\<lambda>c. (c, reindex n
                            (column_or_missing
                               (if has_col current_df c then current_df else reference_df) c)))
              (col_names reference_df),
          nrows = n\<rparr>)"

text \<open>A folder with one CSV and one other entry.\<close>

definition test_folder_listing :: "(string \<times> int dataframe) list" where
  "test_folder_listing = [(''scenario_2.csv'', target_table), (''notes.txt'', target_table)]"

text \<open>Frames for the column-range copier: a source with three columns and a target.\<close>

definition source_table :: "int dataframe" where
  "source_table =
     \<lparr>columns = [(''Time_Index'', [Some 1, Some 2]), (''a'', [Some 3, Some 4]),
                 (''b'', [Some 5, Some 6])],
      nrows = 2\<rparr>"

definition scenario_table :: "int dataframe" where
  "scenario_table = \<lparr>columns = [(''t'', [Some 7, Some 8])], nrows = 2\<rparr>"

text \<open>A sheet that lacks a target column, and a directory with an entry that cannot be
  read, an entry that is no spreadsheet, and a workbook of two sheets.\<close>

definition sheet_S2 :: "int dataframe" where
  "sheet_S2 = \<lparr>columns = [(''FAR_WEST'', [Some 1]), (''NORTH'', [Some 3])], nrows = 1\<rparr>"

definition load_directory :: "(string \<times> workbook option) list" where
  "load_directory =
     [(''bad.xls'', None),
      (''notes.txt'', None),
      (''load.xlsx'', Some [(''S2'', sheet_S2), (''S1'', sheet_S1)])]"

section \<open>Properties\<close>

subsection \<open>Columns of a frame\<close>

lemma getitem_has_col:
  "has_col df col \<Longrightarrow> getitem df col = Inr (column_or_missing df col)"
  unfolding has_col_def col_names_def getitem_def column_or_missing_def
  by (cases "map_of (columns df) col") (auto simp: map_of_eq_None_iff)

lemma wf_column_length:
  "wf df \<Longrightarrow> has_col df col \<Longrightarrow> length (column_or_missing df col) = nrows df"
  unfolding wf_def has_col_def col_names_def column_or_missing_def
  by (cases "map_of (columns df) col")
     (auto simp: map_of_eq_None_iff list_all_iff dest!: map_of_SomeD)

subsection \<open>The column-sum aggregator\<close>

lemma sum_data_fold:
  "list_all (has_col df) cols \<Longrightarrow>
   sum_data cols df d =
     Inr (fold (\<lambda>col. dict_set col (SInt (series_sum (column_or_missing df col)))) cols d)"
  by (induction cols arbitrary: d) (simp_all add: getitem_has_col)

lemma sheet_loop_closed:
  "sheet_loop cols f sheets acc = (file_notices cols f sheets, Inr (acc @ file_rows cols sheets))"
proof (induction sheets arbitrary: acc)
  case Nil
  show ?case by (simp add: file_notices_def file_rows_def)
next
  case (Cons sheet sheets)
  show ?case
  proof (cases "list_all (has_col (snd sheet)) cols")
    case True
    then show ?thesis
      using Cons.IH [of "acc @ [sheet_row cols sheet]"]
      by (simp add: sum_data_fold file_notices_def file_rows_def sheet_row_def)
  next
    case False
    then show ?thesis
      using Cons.IH [of acc]
      by (simp add: file_notices_def file_rows_def)
  qed
qed

lemma aggregator_loop_closed:
  "aggregator_loop cols files =
     \<lparr>written = concat (map (file_written cols) files),
      printed = concat (map (file_printed cols) files),
      raised = None\<rparr>"
proof (induction files)
  case Nil
  show ?case by (simp add: finished_def)
next
  case (Cons entry files)
  show ?case
  proof (cases "snd entry")
    case None
    then show ?thesis
      using Cons.IH by (simp add: before_def file_written_def file_printed_def)
  next
    case (Some sheets)
    then show ?thesis
      using Cons.IH
      by (simp add: before_def file_written_def file_printed_def sheet_loop_closed
          del: sheet_loop.simps)
  qed
qed

text \<open>
  C6. The aggregator never raises. It writes one file for each spreadsheet entry that
  can be read, holding one row for each of its sheets that has every target column, in
  sheet order, and nothing for a sheet that lacks one: for that sheet it prints the skip
  notice. For an entry that cannot be read it writes nothing and prints the error line,
  and the entries after it are processed all the same.
\<close>

theorem aggregator_skips:
  "aggregator cols dir =
     \<lparr>written = concat (map (file_written cols) (filter (\<lambda>file. is_excel (fst file)) dir)),
      printed = concat (map (file_printed cols) (filter (\<lambda>file. is_excel (fst file)) dir))
                @ [ProcessingComplete],
      raised = None\<rparr>"
  by (simp add: aggregator_def aggregator_loop_closed then_print_def)

theorem aggregator_skips_witness:
  "aggregator columns_to_sum load_directory =
     \<lparr>written = [(''Load_data/load_sum.csv'',
                  [[(''FAR_WEST'', SInt 3), (''NORTH'', SInt 7), (''WEST'', SInt 11),
                    (''Sheet'', SStr ''S1'')]])],
      printed = [ErrorReading ''bad.xls'', SkippingSheet ''S2'' ''load.xlsx'',
                 SumWritten ''load.xlsx'' ''Load_data/load_sum.csv'', ProcessingComplete],
      raised = None\<rparr>"
proof -
  have p: "output_csv_path ''load.xlsx'' = ''Load_data/load_sum.csv''"
    by (simp add: output_csv_path_def path_join_def output_directory_def splitext_root_def
        endswith_def)
  have f: "filter (\<lambda>file. is_excel (fst file)) load_directory
           = [(''bad.xls'', None), (''load.xlsx'', Some [(''S2'', sheet_S2), (''S1'', sheet_S1)])]"
    by (simp add: load_directory_def is_excel_def endswith_def)
  have q: "\<not> list_all (has_col sheet_S2) columns_to_sum" "list_all (has_col sheet_S1) columns_to_sum"
    by (simp_all add: columns_to_sum_def sheet_S1_def sheet_S2_def has_col_def col_names_def)
  have r: "sheet_row columns_to_sum (''S1'', sheet_S1)
           = [(''FAR_WEST'', SInt 3), (''NORTH'', SInt 7), (''WEST'', SInt 11),
              (''Sheet'', SStr ''S1'')]"
    by (simp add: sheet_row_def columns_to_sum_def sheet_S1_def column_or_missing_def
        series_sum_def)
  show ?thesis
    using aggregator_skips [of columns_to_sum load_directory]
    by (simp add: f p q r file_written_def file_printed_def file_rows_def file_notices_def)
qed

text \<open>
  C8. A workbook whose only sheet is S1 with FAR\_WEST = [1, 2], NORTH = [3, 4] and
  WEST = [5, 6] gives, for the target columns FAR\_WEST, NORTH and WEST, one output file
  with exactly one row: FAR\_WEST = 3, NORTH = 7, WEST = 11, Sheet = S1.
\<close>

theorem aggregator_S1:
  "is_excel f \<Longrightarrow>
   aggregator columns_to_sum [(f, Some [(''S1'', sheet_S1)])] =
     \<lparr>written = [(output_csv_path f,
                  [[(''FAR_WEST'', SInt 3), (''NORTH'', SInt 7), (''WEST'', SInt 11),
                    (''Sheet'', SStr ''S1'')]])],
      printed = [SumWritten f (output_csv_path f), ProcessingComplete],
      raised = None\<rparr>"
  by (simp add: aggregator_def columns_to_sum_def sheet_S1_def has_col_def col_names_def
      getitem_def series_sum_def before_def finished_def then_print_def)

theorem aggregator_S1_witness:
  "is_excel ''load.xlsx'' \<and>
   aggregator columns_to_sum [(''load.xlsx'', Some [(''S1'', sheet_S1)])] =
     \<lparr>written = [(''Load_data/load_sum.csv'',
                  [[(''FAR_WEST'', SInt 3), (''NORTH'', SInt 7), (''WEST'', SInt 11),
                    (''Sheet'', SStr ''S1'')]])],
      printed = [SumWritten ''load.xlsx'' ''Load_data/load_sum.csv'', ProcessingComplete],
      raised = None\<rparr>"
proof -
  have h: "is_excel ''load.xlsx''"
    by (simp add: is_excel_def endswith_def)
  have p: "output_csv_path ''load.xlsx'' = ''Load_data/load_sum.csv''"
    by (simp add: output_csv_path_def path_join_def output_directory_def splitext_root_def
        endswith_def)
  show ?thesis
    using h aggregator_S1 [OF h] by (simp add: p)
qed



subsection \<open>The column renamer\<close>

lemma new_names_not_old:
  "list_all (\<lambda>v. map_of columns_to_rename v = None) (map snd columns_to_rename)"
  by (simp add: columns_to_rename_def)

lemma no_chain:
  assumes "map_of columns_to_rename k = Some v"
  shows "map_of columns_to_rename v = None"
proof -
  have "(k, v) \<in> set columns_to_rename"
    using assms by (rule map_of_SomeD)
  then have "v \<in> set (map snd columns_to_rename)"
    by force
  then show ?thesis
    using new_names_not_old by (auto simp: list_all_iff)
qed

lemma rename_twice:
  assumes "\<And>k v. map_of mapping k = Some v \<Longrightarrow> map_of mapping v = None"
  shows "rename_columns mapping (rename_columns mapping df) = rename_columns mapping df"
  using assms by (auto simp: rename_columns_def split: option.splits)

text \<open>
  C7. Renaming with the script's fixed mapping is idempotent: renaming a frame twice
  gives the frame that renaming it once gives. Renaming is a total function (it cannot
  raise), and a frame in which none of the old names occurs is left as it is.
\<close>

theorem rename_idempotent:
  "rename_columns columns_to_rename (rename_columns columns_to_rename df)
     = rename_columns columns_to_rename df
   \<and> (set (col_names df) \<inter> set (map fst columns_to_rename) = {}
        \<longrightarrow> rename_columns columns_to_rename df = df)"
proof
  show "rename_columns columns_to_rename (rename_columns columns_to_rename df)
     = rename_columns columns_to_rename df"
    by (rule rename_twice) (rule no_chain)
next
  show "set (col_names df) \<inter> set (map fst columns_to_rename) = {}
        \<longrightarrow> rename_columns columns_to_rename df = df"
  proof
    assume d: "set (col_names df) \<inter> set (map fst columns_to_rename) = {}"
    have "\<forall>c \<in> set (columns df). map_of columns_to_rename (fst c) = None"
    proof
      fix c assume "c \<in> set (columns df)"
      then have "fst c \<in> set (col_names df)"
        by (simp add: col_names_def)
      with d have "fst c \<notin> fst ` set columns_to_rename"
        by auto
      then show "map_of columns_to_rename (fst c) = None"
        by (simp add: map_of_eq_None_iff)
    qed
    then have "map (\<lambda>c. (case map_of columns_to_rename (fst c) of
                           None \<Rightarrow> fst c | Some new \<Rightarrow> new, snd c)) (columns df)
               = columns df"
      by (simp add: map_idI)
    then show "rename_columns columns_to_rename df = df"
      by (simp add: rename_columns_def)
  qed
qed

theorem rename_idempotent_witness:
  "set (col_names plain_table) \<inter> set (map fst columns_to_rename) = {}
   \<and> rename_columns columns_to_rename plain_table = plain_table
   \<and> rename_columns columns_to_rename (rename_columns columns_to_rename wind_table)
       = \<lparr>columns = [(''Time_Index'', [Some 1, Some 2]),
                     (''TRE_landbasedwind_class1_moderate_4'', [Some 7, Some 8])],
          nrows = 2\<rparr>"
proof -
  have d: "set (col_names plain_table) \<inter> set (map fst columns_to_rename) = {}"
    by (simp add: plain_table_def col_names_def columns_to_rename_def)
  have w: "rename_columns columns_to_rename wind_table
       = \<lparr>columns = [(''Time_Index'', [Some 1, Some 2]),
                     (''TRE_landbasedwind_class1_moderate_4'', [Some 7, Some 8])],
          nrows = 2\<rparr>"
    by (simp add: rename_columns_def wind_table_def columns_to_rename_def)
  show ?thesis
    using d w rename_idempotent [of plain_table] rename_idempotent [of wind_table] by simp
qed

subsection \<open>Empty directories\<close>

text \<open>
  C4, as the claim states it, fails: on an empty directory the loop that fills
  \<open>results\<close> leaves the list empty, concatenating the empty list raises ValueError, and
  \<open>output.csv\<close> is not written.
\<close>

theorem concat_job_empty_directory:
  "concat_job columns_to_sum_rows [] = \<lparr>written = [], printed = [], raised = Some ValueError\<rparr>"
  by (simp add: concat_job_def pd_concat_def abort_def)

text \<open>
  C4, amended. On an empty directory the loop of the column-sum aggregator, of the
  column-range copier, of the reconciliation, of the renamer and of the replacer each
  end without raising and write no file; the completion line that the script prints
  after the loop is printed (the renamer's loop has none of its own).
\<close>

theorem loops_on_empty_directory:
  "aggregator cols []
     = \<lparr>written = [], printed = [ProcessingComplete], raised = None\<rparr>
   \<and> copy_job folder start fin source_df []
     = \<lparr>written = [], printed = [AllFilesProcessed], raised = None\<rparr>
   \<and> reconcile_job folder reference_df []
     = \<lparr>written = [], printed = [AllFilesProcessed], raised = None\<rparr>
   \<and> rename_loop folder mapping []
     = \<lparr>written = [], printed = [], raised = None\<rparr>
   \<and> replace_job folder1 cols' folder2 []
     = \<lparr>written = [], printed = [AllFilesProcessed], raised = None\<rparr>"
  by (simp add: aggregator_def copy_job_def reconcile_job_def replace_job_def then_print_def
      finished_def)

subsection \<open>Storing and selecting columns\<close>

lemma map_of_dict_set: "map_of (dict_set k v al) = (map_of al)(k \<mapsto> v)"
  by (induction al) (auto simp: fun_eq_iff)

lemma names_dict_set:
  "map fst (dict_set k v al) = (if k \<in> set (map fst al) then map fst al else map fst al @ [k])"
  by (induction al) auto

lemma length_reindex: "length (reindex n xs) = n"
  by (simp add: reindex_def)

lemma reindex_same: "length xs = n \<Longrightarrow> reindex n xs = xs"
  by (simp add: reindex_def)

lemma select_all_present:
  "list_all (has_col df) cols \<Longrightarrow>
   select df cols = Inr \<lparr>columns = map (\<lambda>c. (c, column_or_missing df c)) cols, nrows = nrows df\<rparr>"
  by (induction cols) (simp_all add: getitem_has_col)

lemma select_missing:
  "\<not> list_all (has_col df) cols \<Longrightarrow> select df cols = Inl KeyError"
proof (induction cols)
  case Nil
  then show ?case by simp
next
  case (Cons c cols)
  show ?case
  proof (cases "has_col df c")
    case True
    then show ?thesis using Cons by (simp add: getitem_has_col)
  next
    case False
    then have "map_of (columns df) c = None"
      by (simp add: has_col_def col_names_def map_of_eq_None_iff)
    then show ?thesis by (simp add: getitem_def)
  qed
qed

subsection \<open>The row-wise sum\<close>

lemma length_sum_axis1: "length (sum_axis1 df) = nrows df"
  by (simp add: sum_axis1_def)

lemma setitem_same_length:
  "length val = nrows df \<Longrightarrow> setitem df col val = df\<lparr>columns := dict_set col val (columns df)\<rparr>"
  by (auto simp: setitem_def ensure_valid_index_def reindex_same Let_def)

text \<open>
  C5, amended. For every sheet in which every listed column exists, the job ends with a
  column Total, appended as the last column when the sheet had none and overwritten in
  place otherwise, whose value in each row is the sum of the listed columns' cells in
  that row, a missing cell counting as 0; every column other than Total keeps its
  values, and the number of rows is unchanged.
\<close>

theorem add_total_sums_rows:
  assumes "list_all (has_col df) cols"
  shows "\<exists>df'. add_total cols df = Inr df'
     \<and> getitem df' ''Total''
         = Inr (map (\<lambda>i. Some (sum_list (map (\<lambda>col. cell_value (column_or_missing df col) i) cols)))
                  [0..<nrows df])
     \<and> (\<forall>c. c \<noteq> ''Total'' \<longrightarrow> getitem df' c = getitem df c)
     \<and> col_names df' = (if has_col df ''Total'' then col_names df else col_names df @ [''Total''])
     \<and> nrows df' = nrows df"
proof -
  let ?part = "\<lparr>columns = map (\<lambda>c. (c, column_or_missing df c)) cols, nrows = nrows df\<rparr>"
  let ?df' = "df\<lparr>columns := dict_set ''Total'' (sum_axis1 ?part) (columns df)\<rparr>"
  have "length (sum_axis1 ?part) = nrows df"
    by (simp add: sum_axis1_def)
  then have r: "add_total cols df = Inr ?df'"
    using assms by (simp add: add_total_def select_all_present setitem_same_length)
  have t: "getitem ?df' ''Total''
         = Inr (map (\<lambda>i. Some (sum_list (map (\<lambda>col. cell_value (column_or_missing df col) i) cols)))
                  [0..<nrows df])"
    by (simp add: getitem_def map_of_dict_set sum_axis1_def comp_def)
  have o: "\<forall>c. c \<noteq> ''Total'' \<longrightarrow> getitem ?df' c = getitem df c"
    by (simp add: getitem_def map_of_dict_set)
  have n: "col_names ?df' = (if has_col df ''Total'' then col_names df else col_names df @ [''Total''])"
    by (simp add: col_names_def has_col_def names_dict_set)
  show ?thesis
    using r t o n by simp
qed

text \<open>
  C5, as the claim states it, fails on a sheet that already has a column Total: no
  column is added, and the values of that column are replaced.
\<close>

theorem add_total_overwrites:
  "getitem totals_table ''Total'' = Inr [Some 100]
   \<and> add_total columns_to_sum_rows totals_table
       = Inr \<lparr>columns = [(''Column1'', [Some 1]), (''Column2'', [Some 2]), (''Total'', [Some 3])],
              nrows = 1\<rparr>"
  by (simp add: totals_table_def getitem_def add_total_def columns_to_sum_rows_def setitem_def
      ensure_valid_index_def reindex_def sum_axis1_def cell_value_def)

theorem add_total_sums_rows_witness:
  "list_all (has_col gaps_table) columns_to_sum_rows
   \<and> add_total columns_to_sum_rows gaps_table
       = Inr \<lparr>columns = [(''Hour'', [Some 1, Some 2]), (''Column1'', [Some 10, None]),
                         (''Column2'', [Some 5, Some 7]), (''Total'', [Some 15, Some 7])],
              nrows = 2\<rparr>"
proof -
  have h: "list_all (has_col gaps_table) columns_to_sum_rows"
    by (simp add: gaps_table_def columns_to_sum_rows_def has_col_def col_names_def)
  obtain df' where "add_total columns_to_sum_rows gaps_table = Inr df'"
    using add_total_sums_rows [OF h] by blast
  moreover have "add_total columns_to_sum_rows gaps_table
       = Inr \<lparr>columns = [(''Hour'', [Some 1, Some 2]), (''Column1'', [Some 10, None]),
                         (''Column2'', [Some 5, Some 7]), (''Total'', [Some 15, Some 7])],
              nrows = 2\<rparr>"
    by (simp add: gaps_table_def getitem_def add_total_def columns_to_sum_rows_def setitem_def
      ensure_valid_index_def reindex_def sum_axis1_def cell_value_def upt_rec)
  ultimately show ?thesis using h by simp
qed

subsection \<open>Storing a column; the column replacer\<close>

lemma evi_nrows:
  "nrows (ensure_valid_index df val) = (if nrows df = 0 then length val else nrows df)"
  by (simp add: ensure_valid_index_def)

lemma evi_names: "col_names (ensure_valid_index df val) = col_names df"
  by (simp add: ensure_valid_index_def col_names_def comp_def)


lemma evi_columns:
  assumes "wf df"
  shows "columns (ensure_valid_index df val)
         = map (\<lambda>c. (fst c, reindex (nrows (ensure_valid_index df val)) (snd c))) (columns df)"
proof (cases "nrows df = 0 \<and> 0 < length val")
  case True
  then show ?thesis by (simp add: ensure_valid_index_def)
next
  case False
  have "map (\<lambda>c. (fst c, reindex (nrows df) (snd c))) (columns df) = columns df"
    using assms by (intro map_idI) (auto simp: wf_def list_all_iff reindex_same)
  with False show ?thesis by (auto simp: ensure_valid_index_def)
qed

lemma evi_wf: "wf df \<Longrightarrow> wf (ensure_valid_index df val)"
  by (auto simp: ensure_valid_index_def wf_def col_names_def comp_def list_all_iff length_reindex)

lemma set_dict_set: "set (dict_set k v al) \<subseteq> insert (k, v) (set al)"
  by (induction al) auto

lemma distinct_dict_set: "distinct (map fst al) \<Longrightarrow> distinct (map fst (dict_set k v al))"
  by (simp add: names_dict_set)

lemma nrows_setitem:
  "nrows (setitem df col val) = (if nrows df = 0 then length val else nrows df)"
  by (simp add: setitem_def Let_def evi_nrows)

lemma names_setitem:
  "col_names (setitem df col val) = (if has_col df col then col_names df else col_names df @ [col])"
  using evi_names [of df val]
  by (simp add: setitem_def Let_def col_names_def has_col_def names_dict_set)

lemma wf_setitem:
  assumes "wf df"
  shows "wf (setitem df col val)"
proof -
  let ?d = "ensure_valid_index df val"
  have w: "wf ?d" using assms by (rule evi_wf)
  have "distinct (map fst (dict_set col (reindex (nrows ?d) val) (columns ?d)))"
    using w by (simp add: wf_def col_names_def distinct_dict_set)
  moreover have "\<forall>c \<in> set (dict_set col (reindex (nrows ?d) val) (columns ?d)). length (snd c) = nrows ?d"
    using w set_dict_set [of col "reindex (nrows ?d) val" "columns ?d"]
    by (auto simp: wf_def list_all_iff length_reindex)
  ultimately show ?thesis
    by (simp add: setitem_def Let_def wf_def col_names_def list_all_iff)
qed

lemma getitem_setitem_same:
  "getitem (setitem df col val) col = Inr (reindex (nrows (setitem df col val)) val)"
  by (simp add: setitem_def Let_def getitem_def map_of_dict_set)

lemma getitem_in_columns:
  "getitem df col = Inr val \<Longrightarrow> (col, val) \<in> set (columns df)"
  by (auto simp: getitem_def split: option.splits dest: map_of_SomeD)

lemma getitem_length:
  "wf df \<Longrightarrow> getitem df col = Inr val \<Longrightarrow> length val = nrows df"
  by (auto simp: wf_def list_all_iff dest!: getitem_in_columns)

lemma getitem_missing:
  assumes "\<not> has_col df col"
  shows "getitem df col = Inl KeyError"
proof -
  have "map_of (columns df) col = None"
    using assms by (simp add: has_col_def col_names_def map_of_eq_None_iff)
  then show ?thesis
    by (simp add: getitem_def)
qed

lemma reindex_reindex: "reindex n (reindex n xs) = reindex n xs"
  by (simp add: reindex_same length_reindex)

lemma map_of_map_snd:
  "map_of (map (\<lambda>c. (fst c, f (snd c))) al) k = map_option f (map_of al k)"
  by (induction al) auto

lemma map_of_tabulate:
  "k \<in> set ks \<Longrightarrow> map_of (map (\<lambda>c. (c, f c)) ks) k = Some (f k)"
  by (induction ks) auto

lemma column_of_getitem: "getitem df col = Inr val \<Longrightarrow> column_or_missing df col = val"
  by (auto simp: getitem_def column_or_missing_def split: option.splits)

lemma has_col_getitem: "getitem df col = Inr val \<Longrightarrow> has_col df col"
  by (auto simp: getitem_def has_col_def col_names_def split: option.splits dest!: map_of_SomeD
      intro: rev_image_eqI)

lemma getitem_evi:
  assumes "wf df" and "has_col df col"
  shows "getitem (ensure_valid_index df val) col
         = Inr (reindex (nrows (ensure_valid_index df val)) (column_or_missing df col))"
proof -
  obtain xs where x: "map_of (columns df) col = Some xs"
    using assms(2) getitem_has_col [of df col] by (cases "map_of (columns df) col") (auto simp: getitem_def)
  then have "column_or_missing df col = xs"
    by (simp add: column_or_missing_def)
  then show ?thesis
    using x by (simp add: getitem_def evi_columns [OF assms(1)] map_of_map_snd)
qed

lemma getitem_setitem_other:
  assumes "wf df" and "has_col df c'" and "c' \<noteq> col"
  shows "getitem (setitem df col val) c'
         = Inr (reindex (nrows (setitem df col val)) (column_or_missing df c'))"
proof -
  have "getitem (setitem df col val) c' = getitem (ensure_valid_index df val) c'"
    using assms(3) by (simp add: setitem_def Let_def getitem_def map_of_dict_set)
  then show ?thesis
    using getitem_evi [OF assms(1,2), of val] by (simp add: nrows_setitem evi_nrows)
qed

lemma replace_columns_present:
  "list_all (has_col df2) cols \<Longrightarrow> \<exists>out. replace_columns cols df1 df2 = Inr out"
  by (induction cols arbitrary: df1) (simp_all add: getitem_has_col)

lemma replace_columns_absent:
  "\<not> list_all (has_col df2) cols \<Longrightarrow> replace_columns cols df1 df2 = Inl KeyError"
proof (induction cols arbitrary: df1)
  case Nil
  then show ?case by simp
next
  case (Cons c cols)
  show ?case
  proof (cases "has_col df2 c")
    case True
    then show ?thesis using Cons by (simp add: getitem_has_col)
  next
    case False
    then show ?thesis by (simp add: getitem_missing)
  qed
qed

lemma raised_before: "raised (before ws ms r) = raised r"
  by (simp add: before_def)

lemma raised_replace_loop:
  "(raised (replace_loop folder1 cols folder2 dir1) \<noteq> None)
     = list_ex (unmatched cols folder2) dir1"
proof (induction dir1)
  case Nil
  show ?case by (simp add: finished_def)
next
  case (Cons entry dir1)
  show ?case
  proof (cases "is_csv (fst entry)")
    case False
    then show ?thesis using Cons by (simp add: unmatched_def)
  next
    case csv: True
    show ?thesis
    proof (cases "map_of folder2 (fst entry)")
      case None
      then show ?thesis using csv by (simp add: unmatched_def abort_def)
    next
      case (Some df2)
      show ?thesis
      proof (cases "list_all (has_col df2) cols")
        case True
        then obtain out where "replace_columns cols (snd entry) df2 = Inr out"
          using replace_columns_present by blast
        then show ?thesis
          using csv Some True Cons by (simp add: unmatched_def raised_before)
      next
        case False
        then have "replace_columns cols (snd entry) df2 = Inl KeyError"
          by (rule replace_columns_absent)
        then show ?thesis
          using csv Some False by (simp add: unmatched_def abort_def)
      qed
    qed
  qed
qed

lemma replace_columns_equal_rows:
  assumes "wf df2" and "nrows df1 = nrows df2" and "replace_columns cols df1 df2 = Inr out"
  shows "(list_all (has_col df1) cols \<longrightarrow> col_names out = col_names df1)
       \<and> nrows out = nrows df1
       \<and> (\<forall>c \<in> set cols. getitem out c = getitem df2 c)
       \<and> (\<forall>c. c \<notin> set cols \<longrightarrow> getitem out c = getitem df1 c)"
  using assms(2,3)
proof (induction cols arbitrary: df1)
  case Nil
  then show ?case by simp
next
  case (Cons c cols)
  obtain val where v: "getitem df2 c = Inr val"
    using Cons.prems(2) by (cases "getitem df2 c") auto
  have len: "length val = nrows df1"
    using assms(1) v Cons.prems(1) by (simp add: getitem_length)
  let ?d = "setitem df1 c val"
  have d: "?d = df1\<lparr>columns := dict_set c val (columns df1)\<rparr>"
    using len by (rule setitem_same_length)
  have n: "nrows ?d = nrows df2"
    using Cons.prems(1) by (simp add: d)
  have r: "replace_columns cols ?d df2 = Inr out"
    using Cons.prems(2) v by simp
  note IH = Cons.IH [OF n r]
  have g: "\<And>c'. getitem ?d c' = (if c' = c then Inr val else getitem df1 c')"
    by (simp add: d getitem_def map_of_dict_set)
  have h: "\<And>c'. has_col ?d c' = (c' = c \<or> has_col df1 c')"
    by (auto simp: has_col_def names_setitem)
  have "list_all (has_col df1) (c # cols) \<longrightarrow> col_names out = col_names df1"
    using IH by (auto simp: names_setitem h list_all_iff)
  moreover have "nrows out = nrows df1"
    using IH by (simp add: d)
  moreover have "\<forall>c' \<in> set (c # cols). getitem out c' = getitem df2 c'"
    using IH g v by (metis set_ConsD)
  moreover have "\<forall>c'. c' \<notin> set (c # cols) \<longrightarrow> getitem out c' = getitem df1 c'"
    using IH g by simp
  ultimately show ?case by blast
qed


lemma replace_columns_props:
  assumes "wf df2"
  shows "wf df1 \<Longrightarrow> list_all (has_col df2) cols \<Longrightarrow>
         \<exists>out. replace_columns cols df1 df2 = Inr out \<and> wf out
           \<and> nrows out = (if nrows df1 = 0 \<and> cols \<noteq> [] then nrows df2 else nrows df1)
           \<and> (\<forall>c \<in> set cols.
                 getitem out c = Inr (reindex (nrows out) (column_or_missing df2 c)))
           \<and> (\<forall>c \<in> set (col_names df1) - set cols.
                 getitem out c = Inr (reindex (nrows out) (column_or_missing df1 c)))
           \<and> (distinct cols \<longrightarrow>
                 col_names out = col_names df1 @ filter (\<lambda>c. \<not> has_col df1 c) cols)"
proof (induction cols arbitrary: df1)
  case Nil
  then show ?case
    by (auto simp: getitem_has_col has_col_def reindex_same wf_column_length)
next
  case (Cons c rest)
  let ?val = "column_or_missing df2 c"
  let ?d = "setitem df1 c ?val"
  have c2: "has_col df2 c" and rest2: "list_all (has_col df2) rest"
    using Cons.prems(2) by simp_all
  have g: "getitem df2 c = Inr ?val"
    using c2 by (rule getitem_has_col)
  have len: "length ?val = nrows df2"
    using assms c2 by (rule wf_column_length)
  have wd: "wf ?d"
    using Cons.prems(1) by (rule wf_setitem)
  have rd: "nrows ?d = (if nrows df1 = 0 then nrows df2 else nrows df1)"
    by (simp add: nrows_setitem len)
  have hd: "\<And>c'. has_col ?d c' = (c' = c \<or> has_col df1 c')"
    by (auto simp: has_col_def names_setitem)
  obtain out where o: "replace_columns rest ?d df2 = Inr out" and wo: "wf out"
    and ro: "nrows out = (if nrows ?d = 0 \<and> rest \<noteq> [] then nrows df2 else nrows ?d)"
    and gr: "\<forall>c' \<in> set rest.
                 getitem out c' = Inr (reindex (nrows out) (column_or_missing df2 c'))"
    and gd: "\<forall>c' \<in> set (col_names ?d) - set rest.
                 getitem out c' = Inr (reindex (nrows out) (column_or_missing ?d c'))"
    and nmo: "distinct rest \<longrightarrow>
                 col_names out = col_names ?d @ filter (\<lambda>c'. \<not> has_col ?d c') rest"
    using Cons.IH [OF wd rest2] by blast
  have ro': "nrows out = nrows ?d"
    using ro rd by (auto split: if_splits)
  have r1: "replace_columns (c # rest) df1 df2 = Inr out"
    using g o by simp
  have r4: "nrows out = (if nrows df1 = 0 \<and> c # rest \<noteq> [] then nrows df2 else nrows df1)"
    using ro' rd by simp
  have cd: "column_or_missing ?d c = reindex (nrows ?d) ?val"
    using getitem_setitem_same [of df1 c ?val] by (rule column_of_getitem)
  have gc: "getitem out c = Inr (reindex (nrows out) ?val)"
  proof (cases "c \<in> set rest")
    case True
    then show ?thesis using gr by simp
  next
    case False
    moreover have "c \<in> set (col_names ?d)"
      using hd [of c] by (simp add: has_col_def)
    ultimately have "getitem out c = Inr (reindex (nrows out) (column_or_missing ?d c))"
      using gd by simp
    then show ?thesis
      using cd ro' by (simp add: reindex_reindex)
  qed
  have r5: "\<forall>c' \<in> set (c # rest).
                 getitem out c' = Inr (reindex (nrows out) (column_or_missing df2 c'))"
    using gc gr by simp
  have r6: "\<forall>c' \<in> set (col_names df1) - set (c # rest).
                 getitem out c' = Inr (reindex (nrows out) (column_or_missing df1 c'))"
  proof
    fix c' assume m: "c' \<in> set (col_names df1) - set (c # rest)"
    then have h: "has_col df1 c'" and ne: "c' \<noteq> c" and nr: "c' \<notin> set rest"
      by (auto simp: has_col_def)
    have "c' \<in> set (col_names ?d)"
      using hd [of c'] h by (simp add: has_col_def)
    then have "getitem out c' = Inr (reindex (nrows out) (column_or_missing ?d c'))"
      using gd nr by simp
    moreover have "column_or_missing ?d c' = reindex (nrows ?d) (column_or_missing df1 c')"
      using getitem_setitem_other [OF Cons.prems(1) h ne, of ?val] by (rule column_of_getitem)
    ultimately show "getitem out c' = Inr (reindex (nrows out) (column_or_missing df1 c'))"
      using ro' by (simp add: reindex_reindex)
  qed
  have r7: "distinct (c # rest) \<longrightarrow>
              col_names out = col_names df1 @ filter (\<lambda>c'. \<not> has_col df1 c') (c # rest)"
  proof
    assume dc: "distinct (c # rest)"
    then have "\<forall>c' \<in> set rest. has_col ?d c' = has_col df1 c'"
      using hd by auto
    then have "filter (\<lambda>c'. \<not> has_col ?d c') rest = filter (\<lambda>c'. \<not> has_col df1 c') rest"
      by (intro filter_cong) simp_all
    then have "col_names out = col_names ?d @ filter (\<lambda>c'. \<not> has_col df1 c') rest"
      using nmo dc by simp
    then show "col_names out = col_names df1 @ filter (\<lambda>c'. \<not> has_col df1 c') (c # rest)"
      by (simp add: names_setitem)
  qed
  show ?case
    using r1 wo r4 r5 r6 r7 by blast
qed

text \<open>
  C3, amended. The replacer raises exactly when the first folder has a CSV entry whose
  name the second folder lacks, or whose namesake in the second folder lacks a listed
  column. A listed column that the first file lacks, or a difference in row counts,
  raises nothing: when the second file has every listed column the pair is processed,
  the listed columns that the first file lacks are appended after its own columns in
  list order, the result has the first file's row count (the second file's when the
  first file has no rows), and each listed column holds the second file's values
  conformed to that row count, cut off or padded with missing cells. When both files
  have every listed column and as many rows as each other, the result has the first
  file's columns and rows, each listed column holding the second file's values row by
  row, and every other column its own.
\<close>

theorem replacer_failures:
  "(raised (replace_job folder1 cols folder2 dir1) \<noteq> None) = list_ex (unmatched cols folder2) dir1
   \<and> (wf df1 \<and> wf df2 \<and> list_all (has_col df2) cols
        \<longrightarrow> (\<exists>out. replace_columns cols df1 df2 = Inr out
                   \<and> nrows out = (if nrows df1 = 0 \<and> cols \<noteq> [] then nrows df2 else nrows df1)
                   \<and> (\<forall>c \<in> set cols.
                         getitem out c = Inr (reindex (nrows out) (column_or_missing df2 c)))
                   \<and> (distinct cols \<longrightarrow>
                         col_names out = col_names df1 @ filter (\<lambda>c. \<not> has_col df1 c) cols)))
   \<and> (wf df2 \<and> nrows df1 = nrows df2 \<and> list_all (has_col df1) cols \<and> list_all (has_col df2) cols
        \<longrightarrow> (\<exists>out. replace_columns cols df1 df2 = Inr out
                   \<and> col_names out = col_names df1
                   \<and> nrows out = nrows df1
                   \<and> (\<forall>c \<in> set cols. getitem out c = getitem df2 c)
                   \<and> (\<forall>c. c \<notin> set cols \<longrightarrow> getitem out c = getitem df1 c)))"
proof (intro conjI)
  show "(raised (replace_job folder1 cols folder2 dir1) \<noteq> None)
          = list_ex (unmatched cols folder2) dir1"
    using raised_replace_loop [of folder1 cols folder2 dir1]
    by (auto simp: replace_job_def then_print_def)
next
  show "wf df1 \<and> wf df2 \<and> list_all (has_col df2) cols
        \<longrightarrow> (\<exists>out. replace_columns cols df1 df2 = Inr out
                   \<and> nrows out = (if nrows df1 = 0 \<and> cols \<noteq> [] then nrows df2 else nrows df1)
                   \<and> (\<forall>c \<in> set cols.
                         getitem out c = Inr (reindex (nrows out) (column_or_missing df2 c)))
                   \<and> (distinct cols \<longrightarrow>
                         col_names out = col_names df1 @ filter (\<lambda>c. \<not> has_col df1 c) cols))"
  proof
    assume a: "wf df1 \<and> wf df2 \<and> list_all (has_col df2) cols"
    then have w2: "wf df2" and w1: "wf df1" and h: "list_all (has_col df2) cols"
      by simp_all
    show "\<exists>out. replace_columns cols df1 df2 = Inr out
                   \<and> nrows out = (if nrows df1 = 0 \<and> cols \<noteq> [] then nrows df2 else nrows df1)
                   \<and> (\<forall>c \<in> set cols.
                         getitem out c = Inr (reindex (nrows out) (column_or_missing df2 c)))
                   \<and> (distinct cols \<longrightarrow>
                         col_names out = col_names df1 @ filter (\<lambda>c. \<not> has_col df1 c) cols)"
      using replace_columns_props [OF w2 w1 h] by blast
  qed
next
  show "wf df2 \<and> nrows df1 = nrows df2 \<and> list_all (has_col df1) cols \<and> list_all (has_col df2) cols
        \<longrightarrow> (\<exists>out. replace_columns cols df1 df2 = Inr out
                   \<and> col_names out = col_names df1
                   \<and> nrows out = nrows df1
                   \<and> (\<forall>c \<in> set cols. getitem out c = getitem df2 c)
                   \<and> (\<forall>c. c \<notin> set cols \<longrightarrow> getitem out c = getitem df1 c))"
  proof
    assume a: "wf df2 \<and> nrows df1 = nrows df2 \<and> list_all (has_col df1) cols
               \<and> list_all (has_col df2) cols"
    then obtain out where out: "replace_columns cols df1 df2 = Inr out"
      using replace_columns_present by blast
    show "\<exists>out. replace_columns cols df1 df2 = Inr out
                   \<and> col_names out = col_names df1
                   \<and> nrows out = nrows df1
                   \<and> (\<forall>c \<in> set cols. getitem out c = getitem df2 c)
                   \<and> (\<forall>c. c \<notin> set cols \<longrightarrow> getitem out c = getitem df1 c)"
      using a out replace_columns_equal_rows [of df2 df1 cols out] by auto
  qed
qed

text \<open>
  C3, as the claim states it, fails: with the script's replace list, a first file that
  has none of the listed columns and two rows, against a second file with one row, is
  processed without an exception.
\<close>

theorem replacer_no_error:
  "\<not> has_col other_table ''TRE_utilitypv_class1_moderate_5''
   \<and> nrows other_table = 2 \<and> nrows partner_table = 1
   \<and> raised (replace_job ''Generators_variability/test_folder'' columns_to_replace
               [(''x.csv'', partner_table)] [(''x.csv'', other_table)]) = None"
  by (simp add: other_table_def partner_table_def columns_to_replace_def has_col_def
      col_names_def replace_job_def then_print_def is_csv_def endswith_def getitem_def
      setitem_def ensure_valid_index_def before_def finished_def Let_def)

theorem replacer_failures_witness:
  "wf folder_B_x \<and> nrows folder_A_x = nrows folder_B_x
   \<and> list_all (has_col folder_A_x) [''TRE''] \<and> list_all (has_col folder_B_x) [''TRE'']
   \<and> replace_columns [''TRE''] folder_A_x folder_B_x
       = Inr \<lparr>columns = [(''Time_Index'', [Some 1, Some 2]), (''TRE'', [Some 99, Some 98])],
              nrows = 2\<rparr>
   \<and> raised (replace_job ''A'' [''TRE''] [(''x.csv'', folder_B_x)] [(''x.csv'', folder_A_x)]) = None
   \<and> raised (replace_job ''A'' [''TRE''] [] [(''x.csv'', folder_A_x)]) \<noteq> None
   \<and> wf longer_table \<and> \<not> has_col longer_table ''TRE'' \<and> nrows longer_table = 3
   \<and> nrows folder_B_x = 2
   \<and> replace_columns [''TRE''] longer_table folder_B_x
       = Inr \<lparr>columns = [(''Time_Index'', [Some 1, Some 2, Some 3]),
                         (''TRE'', [Some 99, Some 98, None])],
              nrows = 3\<rparr>"
proof -
  have h: "wf folder_B_x \<and> nrows folder_A_x = nrows folder_B_x
     \<and> list_all (has_col folder_A_x) [''TRE''] \<and> list_all (has_col folder_B_x) [''TRE'']"
    by (simp add: wf_def folder_A_x_def folder_B_x_def has_col_def col_names_def)
  have e: "replace_columns [''TRE''] folder_A_x folder_B_x
       = Inr \<lparr>columns = [(''Time_Index'', [Some 1, Some 2]), (''TRE'', [Some 99, Some 98])],
              nrows = 2\<rparr>"
    by (simp add: folder_A_x_def folder_B_x_def getitem_def setitem_def ensure_valid_index_def
        reindex_def Let_def)
  have u1: "\<not> list_ex (unmatched [''TRE''] [(''x.csv'', folder_B_x)]) [(''x.csv'', folder_A_x)]"
    by (simp add: unmatched_def folder_B_x_def has_col_def col_names_def)
  have u2: "list_ex (unmatched [''TRE''] []) [(''x.csv'', folder_A_x)]"
    by (simp add: unmatched_def is_csv_def endswith_def)
  have l: "wf longer_table \<and> \<not> has_col longer_table ''TRE'' \<and> nrows longer_table = 3
     \<and> nrows folder_B_x = 2"
    by (simp add: wf_def longer_table_def folder_B_x_def has_col_def col_names_def)
  have m: "replace_columns [''TRE''] longer_table folder_B_x
       = Inr \<lparr>columns = [(''Time_Index'', [Some 1, Some 2, Some 3]),
                         (''TRE'', [Some 99, Some 98, None])],
              nrows = 3\<rparr>"
    by (simp add: longer_table_def folder_B_x_def getitem_def setitem_def ensure_valid_index_def
        reindex_def Let_def)
  show ?thesis
    using h e u1 u2 l m
      replacer_failures [of "''A''" "[''TRE'']" "[(''x.csv'', folder_B_x)]" "[(''x.csv'', folder_A_x)]"
        folder_A_x folder_B_x]
      replacer_failures [of "''A''" "[''TRE'']" "[]" "[(''x.csv'', folder_A_x)]"
        longer_table folder_B_x]
    by simp
qed









subsection \<open>The column reconciliation\<close>

lemma add_missing_props:
  assumes "wf reference_df"
  shows "wf current_df \<Longrightarrow> distinct order \<Longrightarrow> set order \<subseteq> set (col_names reference_df) \<Longrightarrow>
         set order \<inter> set (col_names current_df) = {} \<Longrightarrow>
         \<exists>out. add_missing reference_df order current_df = Inr out \<and> wf out
           \<and> col_names out = col_names current_df @ order
           \<and> nrows out = (if nrows current_df = 0 \<and> order \<noteq> [] then nrows reference_df
                           else nrows current_df)
           \<and> (\<forall>c \<in> set order.
                 getitem out c = Inr (reindex (nrows out) (column_or_missing reference_df c)))
           \<and> (\<forall>c \<in> set (col_names current_df).
                 getitem out c = Inr (reindex (nrows out) (column_or_missing current_df c)))"
proof (induction order arbitrary: current_df)
  case Nil
  then show ?case
    by (auto simp: getitem_has_col has_col_def reindex_same wf_column_length)
next
  case (Cons c rest)
  let ?val = "column_or_missing reference_df c"
  let ?d = "setitem current_df c ?val"
  have cref: "has_col reference_df c"
    using Cons.prems(3) by (simp add: has_col_def)
  have g: "getitem reference_df c = Inr ?val"
    using cref by (rule getitem_has_col)
  have len: "length ?val = nrows reference_df"
    using assms cref by (rule wf_column_length)
  have cnew: "\<not> has_col current_df c"
    using Cons.prems(4) by (simp add: has_col_def)
  have wd: "wf ?d"
    using Cons.prems(1) by (rule wf_setitem)
  have nd: "col_names ?d = col_names current_df @ [c]"
    using cnew by (simp add: names_setitem)
  have rd: "nrows ?d = (if nrows current_df = 0 then nrows reference_df else nrows current_df)"
    by (simp add: nrows_setitem len)
  have p2: "distinct rest" and p3: "set rest \<subseteq> set (col_names reference_df)"
    and p4: "set rest \<inter> set (col_names ?d) = {}"
    using Cons.prems(2,3,4) by (auto simp: nd)
  obtain out where o: "add_missing reference_df rest ?d = Inr out" and wo: "wf out"
    and no: "col_names out = col_names ?d @ rest"
    and ro: "nrows out = (if nrows ?d = 0 \<and> rest \<noteq> [] then nrows reference_df else nrows ?d)"
    and gr: "\<forall>c' \<in> set rest.
                 getitem out c' = Inr (reindex (nrows out) (column_or_missing reference_df c'))"
    and gd: "\<forall>c' \<in> set (col_names ?d).
                 getitem out c' = Inr (reindex (nrows out) (column_or_missing ?d c'))"
    using Cons.IH [OF wd p2 p3 p4] by blast
  have ro': "nrows out = nrows ?d"
    using ro rd by (auto split: if_splits)
  have r1: "add_missing reference_df (c # rest) current_df = Inr out"
    using g o by simp
  have r3: "col_names out = col_names current_df @ c # rest"
    using no nd by simp
  have r4: "nrows out = (if nrows current_df = 0 \<and> c # rest \<noteq> [] then nrows reference_df
                           else nrows current_df)"
    using ro' rd by simp
  have cd: "column_or_missing ?d c = reindex (nrows ?d) ?val"
    using getitem_setitem_same [of current_df c ?val] by (rule column_of_getitem)
  have "getitem out c = Inr (reindex (nrows out) ?val)"
    using gd nd cd ro' by (simp add: reindex_reindex)
  then have r5: "\<forall>c' \<in> set (c # rest).
                 getitem out c' = Inr (reindex (nrows out) (column_or_missing reference_df c'))"
    using gr by simp
  have r6: "\<forall>c' \<in> set (col_names current_df).
                 getitem out c' = Inr (reindex (nrows out) (column_or_missing current_df c'))"
  proof
    fix c' assume m: "c' \<in> set (col_names current_df)"
    then have h: "has_col current_df c'" and ne: "c' \<noteq> c"
      using cnew by (auto simp: has_col_def)
    have "column_or_missing ?d c' = reindex (nrows ?d) (column_or_missing current_df c')"
      using getitem_setitem_other [OF Cons.prems(1) h ne, of ?val] by (rule column_of_getitem)
    moreover have "getitem out c' = Inr (reindex (nrows out) (column_or_missing ?d c'))"
      using gd m nd by simp
    ultimately show "getitem out c' = Inr (reindex (nrows out) (column_or_missing current_df c'))"
      using ro' by (simp add: reindex_reindex)
  qed
  show ?case
    using r1 wo r3 r4 r5 r6 by blast
qed


lemma missing_columns_order:
  assumes "wf reference_df"
  shows "distinct (missing_columns reference_df current_df)
       \<and> set (missing_columns reference_df current_df)
           = set (col_names reference_df) - set (col_names current_df)"
  using assms by (auto simp: missing_columns_def wf_def has_col_def)

lemma reconcile_with_props:
  assumes "wf reference_df" and "wf current_df" and "distinct order"
    and "set order = set (col_names reference_df) - set (col_names current_df)"
  shows "\<exists>out. reconcile_with order reference_df current_df = Inr out
     \<and> col_names out = col_names reference_df
     \<and> nrows out = (if nrows current_df = 0 \<and> order \<noteq> [] then nrows reference_df
                     else nrows current_df)
     \<and> (\<forall>c \<in> set (col_names reference_df).
           getitem out c
             = Inr (reindex (nrows out)
                     (column_or_missing (if has_col current_df c then current_df else reference_df) c)))
     \<and> (nrows reference_df = nrows current_df \<longrightarrow>
          (\<forall>c \<in> set (col_names reference_df).
             getitem out c = (if has_col current_df c then getitem current_df c
                              else getitem reference_df c)))"
proof -
  have s1: "set order \<subseteq> set (col_names reference_df)"
    and s2: "set order \<inter> set (col_names current_df) = {}"
    using assms(4) by auto
  obtain df where a: "add_missing reference_df order current_df = Inr df"
    and nm: "col_names df = col_names current_df @ order"
    and nr: "nrows df = (if nrows current_df = 0 \<and> order \<noteq> [] then nrows reference_df
                         else nrows current_df)"
    and go: "\<forall>c \<in> set order.
                 getitem df c = Inr (reindex (nrows df) (column_or_missing reference_df c))"
    and gc: "\<forall>c \<in> set (col_names current_df).
                 getitem df c = Inr (reindex (nrows df) (column_or_missing current_df c))"
    using add_missing_props [OF assms(1,2,3) s1 s2] by blast
  let ?out = "\<lparr>columns = map (\<lambda>c. (c, column_or_missing df c)) (col_names reference_df),
               nrows = nrows df\<rparr>"
  have "set (col_names reference_df) \<subseteq> set (col_names df)"
    using assms(4) nm by auto
  then have all: "list_all (has_col df) (col_names reference_df)"
    by (auto simp: list_all_iff has_col_def)
  have r: "reconcile_with order reference_df current_df = Inr ?out"
    using a all by (simp add: reconcile_with_def select_all_present)
  have n: "col_names ?out = col_names reference_df"
    by (simp add: col_names_def comp_def)
  have v: "\<forall>c \<in> set (col_names reference_df).
           getitem ?out c
             = Inr (reindex (nrows ?out)
                     (column_or_missing (if has_col current_df c then current_df else reference_df) c))"
  proof
    fix c assume c: "c \<in> set (col_names reference_df)"
    have "getitem ?out c = Inr (column_or_missing df c)"
      using c by (simp add: getitem_def map_of_tabulate)
    moreover have "getitem df c
        = Inr (reindex (nrows df)
                (column_or_missing (if has_col current_df c then current_df else reference_df) c))"
      using c go gc assms(4) by (auto simp: has_col_def)
    ultimately show "getitem ?out c
             = Inr (reindex (nrows ?out)
                     (column_or_missing (if has_col current_df c then current_df else reference_df) c))"
      by (simp add: column_of_getitem)
  qed
  have e: "nrows reference_df = nrows current_df \<longrightarrow>
          (\<forall>c \<in> set (col_names reference_df).
             getitem ?out c = (if has_col current_df c then getitem current_df c
                              else getitem reference_df c))"
  proof (intro impI ballI)
    fix c assume eq: "nrows reference_df = nrows current_df"
      and c: "c \<in> set (col_names reference_df)"
    have k: "nrows ?out = nrows current_df"
      using nr eq by simp
    show "getitem ?out c = (if has_col current_df c then getitem current_df c
                              else getitem reference_df c)"
    proof (cases "has_col current_df c")
      case True
      then show ?thesis
        using v c k wf_column_length [OF assms(2) True]
        by (simp add: getitem_has_col reindex_same)
    next
      case False
      have h: "has_col reference_df c"
        using c by (simp add: has_col_def)
      show ?thesis
        using v c k eq False wf_column_length [OF assms(1) h]
        by (simp add: getitem_has_col [OF h] reindex_same)
    qed
  qed
  show ?thesis
    using r n nr v e by (intro exI [of _ ?out]) simp
qed

lemma reconcile_with_closed:
  assumes "wf reference_df" and "wf current_df" and "distinct order"
    and "set order = set (col_names reference_df) - set (col_names current_df)"
  shows "reconcile_with order reference_df current_df = Inr (reconciled reference_df current_df)"
proof -
  obtain out where r: "reconcile_with order reference_df current_df = Inr out"
    and n: "col_names out = col_names reference_df"
    and k: "nrows out = (if nrows current_df = 0 \<and> order \<noteq> [] then nrows reference_df
                         else nrows current_df)"
    and v: "\<forall>c \<in> set (col_names reference_df).
           getitem out c
             = Inr (reindex (nrows out)
                     (column_or_missing (if has_col current_df c then current_df else reference_df) c))"
    using reconcile_with_props [OF assms] by blast
  obtain df where s: "select df (col_names reference_df) = Inr out"
    using r by (auto simp: reconcile_with_def split: sum.splits)
  have all: "list_all (has_col df) (col_names reference_df)"
    using s select_missing [of df "col_names reference_df"] by auto
  have o: "out = \<lparr>columns = map (\<lambda>c. (c, column_or_missing df c)) (col_names reference_df),
                 nrows = nrows df\<rparr>"
    using s all by (simp add: select_all_present)
  have e: "(order \<noteq> []) = (\<not> list_all (has_col current_df) (col_names reference_df))"
  proof -
    have "(order = []) = (set order = {})"
      by simp
    also have "\<dots> = (set (col_names reference_df) \<subseteq> set (col_names current_df))"
      using assms(4) by auto
    also have "\<dots> = list_all (has_col current_df) (col_names reference_df)"
      by (auto simp: list_all_iff has_col_def)
    finally show ?thesis by simp
  qed
  have c: "map (\<lambda>c. (c, column_or_missing df c)) (col_names reference_df)
        = map (\<lambda>c. (c, reindex (nrows out)
                          (column_or_missing
                             (if has_col current_df c then current_df else reference_df) c)))
            (col_names reference_df)"
  proof (rule map_cong [OF refl])
    fix c assume m: "c \<in> set (col_names reference_df)"
    then have "getitem out c = Inr (column_or_missing df c)"
      by (simp add: o getitem_def map_of_tabulate)
    then show "(c, column_or_missing df c)
        = (c, reindex (nrows out)
                (column_or_missing (if has_col current_df c then current_df else reference_df) c))"
      using v m by simp
  qed
  have "out = reconciled reference_df current_df"
    using o c k e by (simp add: reconciled_def Let_def)
  then show ?thesis
    using r by simp
qed

lemma reconcile_closed:
  assumes "wf reference_df" and "wf current_df"
  shows "reconcile reference_df current_df = Inr (reconciled reference_df current_df)"
  using missing_columns_order [OF assms(1), of current_df] assms
  by (simp add: reconcile_def reconcile_with_closed)

lemma reconcile_loop_closed:
  assumes "wf reference_df"
  shows "list_all (\<lambda>entry. wf (snd entry)) dir \<Longrightarrow>
         reconcile_loop folder reference_df dir
           = \<lparr>written = map (\<lambda>entry. (path_join folder (fst entry),
                                          reconciled reference_df (snd entry)))
                           (filter (\<lambda>entry. is_csv (fst entry)) dir),
              printed = [], raised = None\<rparr>"
proof (induction dir)
  case Nil
  show ?case by (simp add: finished_def)
next
  case (Cons entry dir)
  then have w: "wf (snd entry)" and rest: "list_all (\<lambda>entry. wf (snd entry)) dir"
    by simp_all
  show ?case
    using Cons.IH [OF rest] reconcile_closed [OF assms w] by (simp add: before_def)
qed

text \<open>
  C1. For a reference and targets read from files, the reconciliation job does not
  raise, and for every CSV entry of the folder it writes back, under the entry's path,
  the reconciled target: a frame that has exactly the reference's column names in the
  reference's order. The frame written is what the step on one target returns, whatever
  the order in which its loop visits the missing columns. Each column of it holds the
  target's own values when the target had the column, and the reference's values
  otherwise, conformed to the row index of the result; when reference and target have
  as many rows as each other these are the values as they stand.
\<close>

theorem reconcile_matches_reference:
  assumes "wf reference_df" and "list_all (\<lambda>entry. wf (snd entry)) dir"
    and "wf current_df" and "distinct order"
    and "set order = set (col_names reference_df) - set (col_names current_df)"
  shows "reconcile_job folder reference_df dir
           = \<lparr>written = map (\<lambda>entry. (path_join folder (fst entry),
                                          reconciled reference_df (snd entry)))
                           (filter (\<lambda>entry. is_csv (fst entry)) dir),
              printed = [AllFilesProcessed], raised = None\<rparr>
       \<and> list_all (\<lambda>w. col_names (snd w) = col_names reference_df)
            (written (reconcile_job folder reference_df dir))
       \<and> reconcile reference_df current_df = Inr (reconciled reference_df current_df)
       \<and> reconcile_with order reference_df current_df
            = Inr (reconciled reference_df current_df)
       \<and> col_names (reconciled reference_df current_df) = col_names reference_df
       \<and> nrows (reconciled reference_df current_df)
            = (if nrows current_df = 0 \<and> order \<noteq> [] then nrows reference_df
               else nrows current_df)
       \<and> (\<forall>c \<in> set (col_names reference_df).
             getitem (reconciled reference_df current_df) c
               = Inr (reindex (nrows (reconciled reference_df current_df))
                       (column_or_missing
                          (if has_col current_df c then current_df else reference_df) c)))
       \<and> (nrows reference_df = nrows current_df \<longrightarrow>
            (\<forall>c \<in> set (col_names reference_df).
               getitem (reconciled reference_df current_df) c
                 = (if has_col current_df c then getitem current_df c
                    else getitem reference_df c)))"
proof -
  have j: "reconcile_job folder reference_df dir
           = \<lparr>written = map (\<lambda>entry. (path_join folder (fst entry),
                                          reconciled reference_df (snd entry)))
                           (filter (\<lambda>entry. is_csv (fst entry)) dir),
              printed = [AllFilesProcessed], raised = None\<rparr>"
    by (simp add: reconcile_job_def reconcile_loop_closed [OF assms(1,2)] then_print_def)
  have n: "\<And>t. col_names (reconciled reference_df t) = col_names reference_df"
    by (simp add: reconciled_def Let_def col_names_def comp_def)
  have l: "list_all (\<lambda>w. col_names (snd w) = col_names reference_df)
            (written (reconcile_job folder reference_df dir))"
    by (simp add: j n list_all_iff)
  have c: "reconcile_with order reference_df current_df
            = Inr (reconciled reference_df current_df)"
    using assms(1,3,4,5) by (rule reconcile_with_closed)
  have p: "nrows (reconciled reference_df current_df)
            = (if nrows current_df = 0 \<and> order \<noteq> [] then nrows reference_df
               else nrows current_df)
       \<and> (\<forall>c \<in> set (col_names reference_df).
             getitem (reconciled reference_df current_df) c
               = Inr (reindex (nrows (reconciled reference_df current_df))
                       (column_or_missing
                          (if has_col current_df c then current_df else reference_df) c)))
       \<and> (nrows reference_df = nrows current_df \<longrightarrow>
            (\<forall>c \<in> set (col_names reference_df).
               getitem (reconciled reference_df current_df) c
                 = (if has_col current_df c then getitem current_df c
                    else getitem reference_df c)))"
    using reconcile_with_props [OF assms(1,3,4,5)] c by auto
  note p1 = p [THEN conjunct1] and p2 = p [THEN conjunct2, THEN conjunct1]
    and p3 = p [THEN conjunct2, THEN conjunct2]
  show ?thesis
    by (intro conjI j l reconcile_closed [OF assms(1,3)] c n p1 p2 p3)
qed

theorem reconcile_matches_reference_witness:
  "wf reference_table \<and> list_all (\<lambda>entry. wf (snd entry)) test_folder_listing
   \<and> wf target_table \<and> distinct [''wind'']
   \<and> set [''wind''] = set (col_names reference_table) - set (col_names target_table)
   \<and> nrows reference_table = nrows target_table
   \<and> reconcile_job ''Generators_variability/test_folder'' reference_table test_folder_listing
       = \<lparr>written = [(''Generators_variability/test_folder/scenario_2.csv'',
                      \<lparr>columns = [(''Time_Index'', [Some 1, Some 2]),
                                  (''wind'', [Some 30, Some 40]),
                                  (''solar'', [Some 7, Some 8])],
                       nrows = 2\<rparr>)],
          printed = [AllFilesProcessed], raised = None\<rparr>
   \<and> reconcile_with [''wind''] reference_table target_table
       = Inr \<lparr>columns = [(''Time_Index'', [Some 1, Some 2]), (''wind'', [Some 30, Some 40]),
                         (''solar'', [Some 7, Some 8])],
              nrows = 2\<rparr>"
proof -
  have a: "wf reference_table" and b: "wf target_table"
    by (simp_all add: wf_def reference_table_def target_table_def col_names_def)
  have l: "list_all (\<lambda>entry. wf (snd entry)) test_folder_listing"
    using b by (simp add: test_folder_listing_def)
  have c: "distinct [''wind'']"
    by simp
  have d: "set [''wind''] = set (col_names reference_table) - set (col_names target_table)"
    by (auto simp: reference_table_def target_table_def col_names_def)
  have f: "nrows reference_table = nrows target_table"
    by (simp add: reference_table_def target_table_def)
  have e: "reconciled reference_table target_table
       = \<lparr>columns = [(''Time_Index'', [Some 1, Some 2]), (''wind'', [Some 30, Some 40]),
                     (''solar'', [Some 7, Some 8])],
          nrows = 2\<rparr>"
    by (simp add: reconciled_def reference_table_def target_table_def col_names_def has_col_def
        column_or_missing_def reindex_def Let_def)
  have g: "filter (\<lambda>entry. is_csv (fst entry)) test_folder_listing
           = [(''scenario_2.csv'', target_table)]"
    by (simp add: test_folder_listing_def is_csv_def endswith_def)
  have h: "path_join ''Generators_variability/test_folder'' ''scenario_2.csv''
           = ''Generators_variability/test_folder/scenario_2.csv''"
    by (simp add: path_join_def endswith_def)
  show ?thesis
    using a b c d f l
      reconcile_matches_reference [OF a l b c d, of "''Generators_variability/test_folder''"]
    by (simp add: e g h)
qed

subsection \<open>The column-range copier\<close>

lemma insert_front_new:
  assumes "wf df" and "\<not> has_col df col"
  shows "\<exists>df'. insert_front df col val = Inr df' \<and> wf df'
     \<and> col_names df' = col # col_names df
     \<and> nrows df' = (if nrows df = 0 then length val else nrows df)
     \<and> getitem df' col = Inr (reindex (nrows df') val)
     \<and> (\<forall>c' \<in> set (col_names df).
           getitem df' c' = Inr (reindex (nrows df') (column_or_missing df c')))"
proof -
  let ?e = "ensure_valid_index df val"
  let ?d = "?e\<lparr>columns := (col, reindex (nrows ?e) val) # columns ?e\<rparr>"
  have r: "insert_front df col val = Inr ?d"
    using assms(2) by (simp add: insert_front_def Let_def)
  have we: "wf ?e"
    using assms(1) by (rule evi_wf)
  have ne: "col_names ?e = col_names df"
    by (rule evi_names)
  have w: "wf ?d"
    using we assms(2) ne by (simp add: wf_def col_names_def has_col_def length_reindex)
  have n: "col_names ?d = col # col_names df"
    using ne by (simp add: col_names_def)
  have k: "nrows ?d = (if nrows df = 0 then length val else nrows df)"
    by (simp add: evi_nrows)
  have g: "getitem ?d col = Inr (reindex (nrows ?d) val)"
    by (simp add: getitem_def)
  have o: "\<forall>c' \<in> set (col_names df).
           getitem ?d c' = Inr (reindex (nrows ?d) (column_or_missing df c'))"
  proof
    fix c' assume m: "c' \<in> set (col_names df)"
    then have h: "has_col df c'" and ne': "c' \<noteq> col"
      using assms(2) by (auto simp: has_col_def)
    have "getitem ?d c' = getitem ?e c'"
      using ne' by (simp add: getitem_def)
    then show "getitem ?d c' = Inr (reindex (nrows ?d) (column_or_missing df c'))"
      using getitem_evi [OF assms(1) h, of val] by simp
  qed
  show ?thesis
    using r w n k g o by blast
qed

lemma insert_front_present: "has_col df col \<Longrightarrow> insert_front df col val = Inl ValueError"
  by (simp add: insert_front_def)

lemma insert_loop_props:
  assumes "wf source_df"
  shows "wf target_df \<Longrightarrow> distinct cols \<Longrightarrow> set cols \<subseteq> set (col_names source_df) \<Longrightarrow>
         set cols \<inter> set (col_names target_df) = {} \<Longrightarrow>
         \<exists>out. insert_loop source_df cols target_df = Inr out \<and> wf out
           \<and> col_names out = rev cols @ col_names target_df
           \<and> nrows out = (if nrows target_df = 0 \<and> cols \<noteq> [] then nrows source_df
                           else nrows target_df)
           \<and> (\<forall>c \<in> set cols.
                 getitem out c = Inr (reindex (nrows out) (column_or_missing source_df c)))
           \<and> (\<forall>c \<in> set (col_names target_df).
                 getitem out c = Inr (reindex (nrows out) (column_or_missing target_df c)))"
proof (induction cols arbitrary: target_df)
  case Nil
  then show ?case
    by (auto simp: getitem_has_col has_col_def reindex_same wf_column_length)
next
  case (Cons c rest)
  let ?val = "column_or_missing source_df c"
  have csrc: "has_col source_df c"
    using Cons.prems(3) by (simp add: has_col_def)
  have g: "getitem source_df c = Inr ?val"
    using csrc by (rule getitem_has_col)
  have len: "length ?val = nrows source_df"
    using assms csrc by (rule wf_column_length)
  have cnew: "\<not> has_col target_df c"
    using Cons.prems(4) by (simp add: has_col_def)
  obtain d where i: "insert_front target_df c ?val = Inr d" and wd: "wf d"
    and nd: "col_names d = c # col_names target_df"
    and rd: "nrows d = (if nrows target_df = 0 then nrows source_df else nrows target_df)"
    and gc: "getitem d c = Inr (reindex (nrows d) ?val)"
    and gt: "\<forall>c' \<in> set (col_names target_df).
           getitem d c' = Inr (reindex (nrows d) (column_or_missing target_df c'))"
    using insert_front_new [OF Cons.prems(1) cnew, of ?val] len by auto
  have p2: "distinct rest" and p3: "set rest \<subseteq> set (col_names source_df)"
    and p4: "set rest \<inter> set (col_names d) = {}"
    using Cons.prems(2,3,4) by (auto simp: nd)
  obtain out where o: "insert_loop source_df rest d = Inr out" and wo: "wf out"
    and no: "col_names out = rev rest @ col_names d"
    and ro: "nrows out = (if nrows d = 0 \<and> rest \<noteq> [] then nrows source_df else nrows d)"
    and gr: "\<forall>c' \<in> set rest.
                 getitem out c' = Inr (reindex (nrows out) (column_or_missing source_df c'))"
    and gd: "\<forall>c' \<in> set (col_names d).
                 getitem out c' = Inr (reindex (nrows out) (column_or_missing d c'))"
    using Cons.IH [OF wd p2 p3 p4] by blast
  have ro': "nrows out = nrows d"
    using ro rd by (auto split: if_splits)
  have r1: "insert_loop source_df (c # rest) target_df = Inr out"
    using g i o by simp
  have r3: "col_names out = rev (c # rest) @ col_names target_df"
    using no nd by simp
  have r4: "nrows out = (if nrows target_df = 0 \<and> c # rest \<noteq> [] then nrows source_df
                           else nrows target_df)"
    using ro' rd by simp
  have cd: "column_or_missing d c = reindex (nrows d) ?val"
    using gc by (rule column_of_getitem)
  have "getitem out c = Inr (reindex (nrows out) ?val)"
    using gd nd cd ro' by (simp add: reindex_reindex)
  then have r5: "\<forall>c' \<in> set (c # rest).
                 getitem out c' = Inr (reindex (nrows out) (column_or_missing source_df c'))"
    using gr by simp
  have r6: "\<forall>c' \<in> set (col_names target_df).
                 getitem out c' = Inr (reindex (nrows out) (column_or_missing target_df c'))"
  proof
    fix c' assume m: "c' \<in> set (col_names target_df)"
    have "column_or_missing d c' = reindex (nrows d) (column_or_missing target_df c')"
      using gt m by (simp add: column_of_getitem)
    moreover have "getitem out c' = Inr (reindex (nrows out) (column_or_missing d c'))"
      using gd m nd by simp
    ultimately show "getitem out c' = Inr (reindex (nrows out) (column_or_missing target_df c'))"
      using ro' by (simp add: reindex_reindex)
  qed
  show ?case
    using r1 wo r3 r4 r5 r6 by blast
qed

lemma insert_loop_collision:
  assumes "wf source_df"
  shows "wf target_df \<Longrightarrow> set cols \<subseteq> set (col_names source_df) \<Longrightarrow>
         \<not> distinct cols \<or> set cols \<inter> set (col_names target_df) \<noteq> {} \<Longrightarrow>
         insert_loop source_df cols target_df = Inl ValueError"
proof (induction cols arbitrary: target_df)
  case Nil
  then show ?case by simp
next
  case (Cons c rest)
  let ?val = "column_or_missing source_df c"
  have g: "getitem source_df c = Inr ?val"
    using Cons.prems(2) by (simp add: getitem_has_col has_col_def)
  show ?case
  proof (cases "has_col target_df c")
    case True
    then show ?thesis
      using g by (simp add: insert_front_present)
  next
    case False
    obtain d where i: "insert_front target_df c ?val = Inr d" and wd: "wf d"
      and nd: "col_names d = c # col_names target_df"
      using insert_front_new [OF Cons.prems(1) False, of ?val] by blast
    have "\<not> distinct rest \<or> set rest \<inter> set (col_names d) \<noteq> {}"
      using Cons.prems(3) False by (auto simp: nd has_col_def)
    then have "insert_loop source_df rest d = Inl ValueError"
      using Cons.IH [OF wd] Cons.prems(2) by simp
    then show ?thesis
      using g i by simp
  qed
qed

lemma columns_to_copy_slice:
  assumes "wf source_df"
  shows "distinct (columns_to_copy start fin source_df)
       \<and> set (columns_to_copy start fin source_df) \<subseteq> set (col_names source_df)"
proof -
  have "distinct (col_names source_df)"
    using assms by (simp add: wf_def)
  then have "distinct (drop start (take (fin + 1) (col_names source_df)))"
    by (intro distinct_drop distinct_take)
  moreover have "set (drop start (take (fin + 1) (col_names source_df))) \<subseteq> set (col_names source_df)"
    by (meson set_drop_subset set_take_subset subset_trans)
  ultimately show ?thesis
    by (simp add: columns_to_copy_def)
qed

text \<open>
  C2, amended. When no column of the slice is already a column of the target, the copy
  puts the slice in front of the target's original columns in the reverse of the order
  it has in the source; with equal row counts every inserted column holds the source's
  values and every original column its own. When a column of the slice is already in
  the target, the copy raises ValueError.
\<close>

theorem copier_prepends_reversed:
  assumes "wf source_df" and "wf target_df"
  shows "(set (columns_to_copy start fin source_df) \<inter> set (col_names target_df) \<noteq> {}
            \<longrightarrow> copy_columns start fin source_df target_df = Inl ValueError)
       \<and> (set (columns_to_copy start fin source_df) \<inter> set (col_names target_df) = {}
            \<longrightarrow> (\<exists>out. copy_columns start fin source_df target_df = Inr out
                   \<and> col_names out = rev (columns_to_copy start fin source_df) @ col_names target_df
                   \<and> (nrows source_df = nrows target_df \<longrightarrow>
                        nrows out = nrows target_df
                        \<and> (\<forall>c \<in> set (columns_to_copy start fin source_df).
                              getitem out c = getitem source_df c)
                        \<and> (\<forall>c \<in> set (col_names target_df).
                              getitem out c = getitem target_df c))))"
proof (intro conjI impI)
  assume "set (columns_to_copy start fin source_df) \<inter> set (col_names target_df) \<noteq> {}"
  then show "copy_columns start fin source_df target_df = Inl ValueError"
    using insert_loop_collision [OF assms(1,2)] columns_to_copy_slice [OF assms(1)]
    by (simp add: copy_columns_def)
next
  let ?cols = "columns_to_copy start fin source_df"
  assume d: "set ?cols \<inter> set (col_names target_df) = {}"
  have s: "distinct ?cols" "set ?cols \<subseteq> set (col_names source_df)"
    using columns_to_copy_slice [OF assms(1)] by simp_all
  obtain out where o: "insert_loop source_df ?cols target_df = Inr out"
    and n: "col_names out = rev ?cols @ col_names target_df"
    and r: "nrows out = (if nrows target_df = 0 \<and> ?cols \<noteq> [] then nrows source_df
                           else nrows target_df)"
    and gs: "\<forall>c \<in> set ?cols.
                 getitem out c = Inr (reindex (nrows out) (column_or_missing source_df c))"
    and gt: "\<forall>c \<in> set (col_names target_df).
                 getitem out c = Inr (reindex (nrows out) (column_or_missing target_df c))"
    using insert_loop_props [OF assms(1,2) s d] by blast
  have e: "nrows source_df = nrows target_df \<longrightarrow>
                        nrows out = nrows target_df
                        \<and> (\<forall>c \<in> set ?cols. getitem out c = getitem source_df c)
                        \<and> (\<forall>c \<in> set (col_names target_df). getitem out c = getitem target_df c)"
  proof (intro impI conjI ballI)
    assume eq: "nrows source_df = nrows target_df"
    show k: "nrows out = nrows target_df"
      using r eq by simp
    { fix c assume c: "c \<in> set ?cols"
      then have h: "has_col source_df c"
        using s(2) by (auto simp: has_col_def)
      show "getitem out c = getitem source_df c"
        using gs c k eq wf_column_length [OF assms(1) h]
        by (simp add: getitem_has_col [OF h] reindex_same) }
    { fix c assume c: "c \<in> set (col_names target_df)"
      then have h: "has_col target_df c"
        by (simp add: has_col_def)
      show "getitem out c = getitem target_df c"
        using gt c k wf_column_length [OF assms(2) h]
        by (simp add: getitem_has_col [OF h] reindex_same) }
  qed
  show "\<exists>out. copy_columns start fin source_df target_df = Inr out
                   \<and> col_names out = rev ?cols @ col_names target_df
                   \<and> (nrows source_df = nrows target_df \<longrightarrow>
                        nrows out = nrows target_df
                        \<and> (\<forall>c \<in> set ?cols. getitem out c = getitem source_df c)
                        \<and> (\<forall>c \<in> set (col_names target_df). getitem out c = getitem target_df c))"
    using o n e by (simp add: copy_columns_def)
qed

text \<open>
  C2, as the claim states it, fails: with the script's range, a source whose columns after
  the first are a, b gives a target that begins with b, a.
\<close>

theorem copier_reverses_slice:
  "columns_to_copy start_col end_col source_table = [''a'', ''b'']
   \<and> copy_columns start_col end_col source_table scenario_table
       = Inr \<lparr>columns = [(''b'', [Some 5, Some 6]), (''a'', [Some 3, Some 4]),
                         (''t'', [Some 7, Some 8])],
              nrows = 2\<rparr>"
  by (simp add: columns_to_copy_def copy_columns_def start_col_def end_col_def source_table_def
      scenario_table_def col_names_def getitem_def insert_front_def has_col_def
      ensure_valid_index_def reindex_def Let_def)

theorem copier_prepends_reversed_witness:
  "wf source_table \<and> wf scenario_table
   \<and> set (columns_to_copy start_col end_col source_table) \<inter> set (col_names scenario_table) = {}
   \<and> set (columns_to_copy start_col end_col source_table) \<inter> set (col_names source_table) \<noteq> {}
   \<and> nrows source_table = nrows scenario_table
   \<and> copy_columns start_col end_col source_table source_table = Inl ValueError
   \<and> map_sum id col_names (copy_columns start_col end_col source_table scenario_table)
       = Inr [''b'', ''a'', ''t'']"
proof -
  have a: "wf source_table" and b: "wf scenario_table"
    by (simp_all add: wf_def source_table_def scenario_table_def col_names_def)
  have c: "columns_to_copy start_col end_col source_table = [''a'', ''b'']"
    by (simp add: columns_to_copy_def start_col_def end_col_def source_table_def col_names_def)
  have d: "set (columns_to_copy start_col end_col source_table) \<inter> set (col_names scenario_table) = {}"
    by (simp add: c) (simp add: scenario_table_def col_names_def)
  have e: "set (columns_to_copy start_col end_col source_table) \<inter> set (col_names source_table) \<noteq> {}"
    by (simp add: c) (simp add: source_table_def col_names_def)
  have f: "nrows source_table = nrows scenario_table"
    by (simp add: source_table_def scenario_table_def)
  have n: "col_names scenario_table = [''t'']"
    by (simp add: scenario_table_def col_names_def)
  show ?thesis
    using a b d e f
      copier_prepends_reversed [OF a b, of start_col end_col]
      copier_prepends_reversed [OF a a, of start_col end_col]
    by (auto simp: c n)
qed

end
